theory Spec2Isabelle
  imports Complex_Main "HOL-Library.Word" "HOL-Library.Sublist" "HOL-Library.AList"
begin

section \<open>Strings and numbers of the host language\<close>

text \<open>
  Strings are byte strings. \<open>show_int\<close> is the decimal rendering a template literal gives
  an integer (timestamps, ages, device indices): \<open>show_digits\<close> renders a non-negative one.
\<close>

type_synonym byte = "8 word"

function show_digits :: "int \<Rightarrow> string" where
  "show_digits n =
     (if n < 10 then [char_of (48 + n)]
      else show_digits (n div 10) @ [char_of (48 + n mod 10)])"
  by pat_completeness auto
termination
  by (relation "measure nat") auto

declare show_digits.simps [simp del]

definition show_int :: "int \<Rightarrow> string" where
  "show_int i = (if i < 0 then ''-'' @ show_digits (- i) else show_digits i)"

definition show_nat :: "nat \<Rightarrow> string" where
  "show_nat n = show_int (int n)"

text \<open>\<open>s.includes(sub)\<close>: \<open>sub\<close> occurs in \<open>s\<close> as a contiguous substring.\<close>

fun str_includes :: "string \<Rightarrow> string \<Rightarrow> bool" where
  "str_includes [] sub = (sub = [])"
| "str_includes (c # cs) sub = (if prefix sub (c # cs) then True else str_includes cs sub)"

text \<open>\<open>file.startsWith(p)\<close>.\<close>

definition startsWith :: "string \<Rightarrow> string \<Rightarrow> bool" where
  "startsWith s p = prefix p s"

definition ascii_lower :: "char \<Rightarrow> char" where
  "ascii_lower c =
     (if 65 \<le> (of_char c :: nat) \<and> (of_char c :: nat) \<le> 90
      then char_of ((of_char c :: nat) + 32) else c)"

text \<open>
  \<open>tempFilepath.replace(/\.(jpg|jpeg|bmp|ppm|png)$/i, '')\<close>: one of the five extensions,
  in any letter case, is removed when it ends the string. No two alternatives can match
  the same string, so the order of the alternation does not matter.
\<close>

definition image_exts :: "string list" where
  "image_exts = [''.jpg'', ''.jpeg'', ''.bmp'', ''.ppm'', ''.png'']"

definition strip_image_ext :: "string \<Rightarrow> string" where
  "strip_image_ext p =
     (case find (\<lambda>e. suffix e (map ascii_lower p)) image_exts of
        None \<Rightarrow> p
      | Some e \<Rightarrow> take (length p - length e) p)"

text \<open>
  The value of a division of two integers as the host language computes it: division by
  zero gives NaN or an infinity, never an error. For a numerator between 0 and the
  denominator and a denominator of at most 1000 the comparison of the rounded quotient with
  the rounded literal 0.9 agrees with the comparison of the exact quotient with 9/10, which
  is what \<open>js_gt\<close> computes.
\<close>

datatype jsnum = NaN | PosInf | NegInf | Fin rat

definition js_div :: "int \<Rightarrow> int \<Rightarrow> jsnum" where
  "js_div a b =
     (if b = 0 then (if a = 0 then NaN else if 0 < a then PosInf else NegInf)
      else Fin (of_int a / of_int b))"

fun js_gt :: "jsnum \<Rightarrow> rat \<Rightarrow> bool" where
  "js_gt NaN c = False"
| "js_gt PosInf c = True"
| "js_gt NegInf c = False"
| "js_gt (Fin q) c = (c < q)"

section \<open>The frame-quality guard: \<open>WebcamManager.isImageBlack\<close>\<close>

text \<open>
  \<open>buffer[i]\<close> is \<open>undefined\<close> outside the buffer, and \<open>undefined < 20\<close> is false.
\<close>

definition buffer_at :: "byte list \<Rightarrow> int \<Rightarrow> byte option" where
  "buffer_at buffer i =
     (if 0 \<le> i \<and> i < int (length buffer) then Some (buffer ! nat i) else None)"

definition lt20 :: "byte option \<Rightarrow> bool" where
  "lt20 v = (case v of None \<Rightarrow> False | Some b \<Rightarrow> b < 20)"

text \<open>
  The loop \<open>for (let i = 100; i < 100 + sampleSize; i++)\<close>. Beside the counter
  \<open>blackPixels\<close> it records every index it reads, in order.
\<close>

function black_loop :: "byte list \<Rightarrow> int \<Rightarrow> int \<Rightarrow> nat \<times> int list \<Rightarrow> nat \<times> int list" where
  "black_loop buffer i stop (blackPixels, reads) =
     (if i < stop
      then black_loop buffer (i + 1) stop
             (if lt20 (buffer_at buffer i) then blackPixels + 1 else blackPixels, reads @ [i])
      else (blackPixels, reads))"
  by pat_completeness auto
termination
  by (relation "measure (\<lambda>(buffer, i, stop, acc). nat (stop - i))") auto

declare black_loop.simps [simp del]

definition isImageBlack :: "byte list \<Rightarrow> bool" where
  "isImageBlack buffer =
     (let sampleSize = min 1000 (int (length buffer) - 100);
          blackPixels = fst (black_loop buffer 100 (100 + sampleSize) (0, []))
      in js_gt (js_div (int blackPixels) sampleSize) (9 / 10))"

definition isImageBlack_reads :: "byte list \<Rightarrow> int list" where
  "isImageBlack_reads buffer =
     snd (black_loop buffer 100 (100 + min 1000 (int (length buffer) - 100)) (0, []))"

text \<open>
  The guard as the specification words it: the window of \<open>min(1000, length - 100)\<close> bytes
  from offset 100, and the number of its bytes below 20.
\<close>

definition sample_window :: "byte list \<Rightarrow> byte list" where
  "sample_window buffer = take (nat (min 1000 (int (length buffer) - 100))) (drop 100 buffer)"

definition dark_count :: "byte list \<Rightarrow> nat" where
  "dark_count w = length (filter (\<lambda>b. b < 20) w)"

section \<open>The file system\<close>

text \<open>
  The file system holds regular files only, each with its modification time in milliseconds
  and its bytes, keyed by full path; it is an association list, so that a directory can be
  listed. \<open>statSync\<close>, \<open>readFileSync\<close>, \<open>unlinkSync\<close> and \<open>renameSync\<close> throw
  on a missing path: they return \<open>None\<close>. Directories are not files: creating the
  capture directory (\<open>mkdirSync\<close>) changes no file and is left out. Times are whole
  milliseconds.
\<close>

record fnode =
  mtimeMs :: int
  content :: "byte list"

type_synonym filesystem = "(string \<times> fnode) list"

definition statSync :: "filesystem \<Rightarrow> string \<Rightarrow> fnode option" where
  "statSync fs p = map_of fs p"

definition existsSync :: "filesystem \<Rightarrow> string \<Rightarrow> bool" where
  "existsSync fs p = (statSync fs p \<noteq> None)"

definition readFileSync :: "filesystem \<Rightarrow> string \<Rightarrow> byte list option" where
  "readFileSync fs p = map_option content (statSync fs p)"

definition unlinkSync :: "filesystem \<Rightarrow> string \<Rightarrow> filesystem option" where
  "unlinkSync fs p = (if existsSync fs p then Some (AList.delete p fs) else None)"

definition renameSync :: "filesystem \<Rightarrow> string \<Rightarrow> string \<Rightarrow> filesystem option" where
  "renameSync fs oldPath newPath =
     (case statSync fs oldPath of
        None \<Rightarrow> None
      | Some f \<Rightarrow> Some (AList.update newPath f (AList.delete oldPath fs)))"

definition writeFileSync :: "filesystem \<Rightarrow> string \<Rightarrow> fnode \<Rightarrow> filesystem" where
  "writeFileSync fs p f = AList.update p f fs"

datatype platform = Linux | Win32 | Darwin | OtherPlatform

definition sep :: "platform \<Rightarrow> string" where
  "sep pf = (if pf = Win32 then [CHR 0x5C] else ''/'')"

text \<open>
  \<open>path.join(this.capturesDir, name)\<close> for the normalised directory the constructor
  builds and a file name without separators.
\<close>

definition path_join :: "platform \<Rightarrow> string \<Rightarrow> string \<Rightarrow> string" where
  "path_join pf dir name = dir @ sep pf @ name"

text \<open>
  \<open>fs.readdirSync(dir)\<close>: the names of the files directly in \<open>dir\<close>, which are the
  paths made of \<open>dir\<close>, a separator and a non-empty name without separator. A directory
  that does not exist has no files, so listing it gives the empty list, which is what the
  guard \<open>if (!fs.existsSync(this.capturesDir)) return\<close> of the sweep amounts to.
\<close>

definition entry_name :: "platform \<Rightarrow> string \<Rightarrow> string \<Rightarrow> string option" where
  "entry_name pf dir p =
     (if prefix (dir @ sep pf) p \<and> length (dir @ sep pf) < length p \<and>
         \<not> str_includes (drop (length (dir @ sep pf)) p) (sep pf)
      then Some (drop (length (dir @ sep pf)) p) else None)"

definition readdirSync :: "platform \<Rightarrow> filesystem \<Rightarrow> string \<Rightarrow> string list" where
  "readdirSync pf fs dir = List.map_filter (entry_name pf dir) (map fst fs)"

section \<open>The sweep: \<open>WebcamManager.clearOldCaptures\<close>\<close>

text \<open>
  The body of \<open>files.forEach\<close>. An exception of \<open>statSync\<close> or \<open>unlinkSync\<close> is
  caught and ignored: the file system stays as it is.
\<close>

definition sweep_file :: "platform \<Rightarrow> string \<Rightarrow> int \<Rightarrow> filesystem \<Rightarrow> string \<Rightarrow> filesystem" where
  "sweep_file pf capturesDir now fs file =
     (if startsWith file ''capture_''
      then (let filePath = path_join pf capturesDir file in
            case statSync fs filePath of
              None \<Rightarrow> fs
            | Some stats \<Rightarrow>
                if now - mtimeMs stats > 30 * 1000
                then (case unlinkSync fs filePath of None \<Rightarrow> fs | Some fs' \<Rightarrow> fs')
                else fs)
      else fs)"

definition clearOldCaptures :: "platform \<Rightarrow> string \<Rightarrow> int \<Rightarrow> filesystem \<Rightarrow> filesystem" where
  "clearOldCaptures pf capturesDir now fs =
     foldl (sweep_file pf capturesDir now) fs (readdirSync pf fs capturesDir)"

section \<open>Device enumeration: \<open>WebcamManager.listDevices\<close>\<close>

record WebcamDevice =
  name :: string
  id' :: string

text \<open>
  The probe \<open>for (let i = 0; i < 10; i++)\<close> of the device nodes; \<open>video_exists i\<close> says
  whether the node of index \<open>i\<close> exists.
\<close>

definition probe_video :: "(nat \<Rightarrow> bool) \<Rightarrow> WebcamDevice list" where
  "probe_video video_exists =
     map (\<lambda>i. \<lparr>name = ''USB Camera (video'' @ show_nat i @ '')'', id' = show_nat i\<rparr>)
       (filter video_exists [0..<10])"

text \<open>
  The rendering of \<open>parseInt(device) + 1\<close> in a template literal; \<open>parseInt\<close> is the
  host language's, with \<open>None\<close> for NaN.
\<close>

definition show_plus_one :: "int option \<Rightarrow> string" where
  "show_plus_one v = (case v of None \<Rightarrow> ''NaN'' | Some n \<Rightarrow> show_int (n + 1))"

definition device_entry :: "(string \<Rightarrow> int option) \<Rightarrow> string list \<Rightarrow> nat \<Rightarrow> string \<Rightarrow> WebcamDevice" where
  "device_entry parseInt cameraNames index device =
     (let deviceName = (if index < length cameraNames then cameraNames ! index else '''');
          deviceName =
            (if deviceName = ''''
             then (if device \<noteq> ''''
                   then ''Webcam '' @ show_plus_one (parseInt device) @ '' (Device '' @ device @ '')''
                   else ''Camera '' @ show_nat (index + 1))
             else deviceName)
      in \<lparr>name = deviceName, id' = (if device \<noteq> '''' then device else show_nat index)\<rparr>)"

definition simulatedDevices :: "WebcamDevice list" where
  "simulatedDevices = [\<lparr>name = ''Default Camera'', id' = ''0''\<rparr>]"

text \<open>
  \<open>listDevices\<close>, given the platform, the device nodes that exist, the result of
  \<open>getCameraNames\<close> and the list \<open>NodeWebcam.list\<close> hands to its callback (\<open>None\<close>
  when it is null or undefined).
\<close>

definition listDevices ::
  "platform \<Rightarrow> (nat \<Rightarrow> bool) \<Rightarrow> (string \<Rightarrow> int option) \<Rightarrow> string list \<Rightarrow> string list option
     \<Rightarrow> WebcamDevice list" where
  "listDevices pf video_exists parseInt cameraNames list =
     (if pf = Linux \<and> length (probe_video video_exists) > 0
      then probe_video video_exists
      else (case list of
              None \<Rightarrow> simulatedDevices
            | Some l \<Rightarrow>
                if length l = 0 then simulatedDevices
                else map (\<lambda>(index, device). device_entry parseInt cameraNames index device)
                       (enumerate 0 l)))"

section \<open>One capture: \<open>WebcamManager.captureImage\<close>\<close>

text \<open>
  What one call of \<open>captureImage\<close> takes from outside the program: the clock readings,
  the random part of the identifier, the capture facility (\<open>this.webcam.capture\<close>, which
  is given the temporary path, may change the file system, and calls back with an error
  message or with the path it reports, the empty string when it reports none), and the
  conversion by the image library (the rendering of its exception, or the bytes of the JPEG
  it writes).
\<close>

datatype capture_result = CaptureErr string | CaptureData string

record attempt =
  timestamp :: int
  randomId :: string
  sweepNow :: int
  webcam_capture :: "string \<Rightarrow> filesystem \<Rightarrow> capture_result \<times> filesystem"
  checkNow :: int
  jimp_convert :: "byte list \<Rightarrow> string + byte list"
  writeNow :: int

definition uniqueId :: "attempt \<Rightarrow> string" where
  "uniqueId a = show_int (timestamp a) @ ''_'' @ randomId a"

definition tempFilepath :: "platform \<Rightarrow> string \<Rightarrow> attempt \<Rightarrow> string" where
  "tempFilepath pf capturesDir a =
     path_join pf capturesDir
       (if pf = Linux then ''capture_temp_'' @ uniqueId a @ ''.jpg''
        else ''capture_temp_'' @ uniqueId a)"

definition finalFilepath :: "platform \<Rightarrow> string \<Rightarrow> attempt \<Rightarrow> string" where
  "finalFilepath pf capturesDir a = path_join pf capturesDir (''capture_'' @ uniqueId a @ ''.jpeg'')"

definition extensions :: "string list" where
  "extensions = [''.jpg'', ''.jpeg'', ''.bmp'', ''.ppm'', ''.png'', '''']"

text \<open>The loop \<open>for (const ext of extensions)\<close> with its \<open>break\<close>.\<close>

fun probe_extensions :: "filesystem \<Rightarrow> string \<Rightarrow> string \<Rightarrow> string list \<Rightarrow> string \<Rightarrow> string" where
  "probe_extensions fs baseFilepath uid [] capturedPath = capturedPath"
| "probe_extensions fs baseFilepath uid (ext # exts) capturedPath =
     (let tryPath = baseFilepath @ ext in
      if existsSync fs tryPath \<and> str_includes tryPath uid then tryPath
      else probe_extensions fs baseFilepath uid exts capturedPath)"

definition resolveCapturedPath :: "filesystem \<Rightarrow> string \<Rightarrow> string \<Rightarrow> string \<Rightarrow> string" where
  "resolveCapturedPath fs data tempPath uid =
     (let capturedPath = (if data \<noteq> '''' then data else tempPath) in
      if \<not> existsSync fs capturedPath
      then probe_extensions fs (strip_image_ext tempPath) uid extensions capturedPath
      else capturedPath)"

definition join_comma :: "string list \<Rightarrow> string" where
  "join_comma xs = (case xs of [] \<Rightarrow> '''' | y # ys \<Rightarrow> foldl (\<lambda>acc x. acc @ '', '' @ x) y ys)"

definition notFoundError :: "string \<Rightarrow> string \<Rightarrow> string list \<Rightarrow> string" where
  "notFoundError capturedPath uid files =
     ''Error: Captured image not found. Looked for: '' @ capturedPath @ '' with ID: '' @ uid @
     ''. Files in dir: '' @ join_comma files"

definition staleError :: "int \<Rightarrow> string" where
  "staleError fileAge =
     ''Error: Captured image appears to be stale ('' @ show_int fileAge @
     ''ms old). This might be a previous capture.''"

definition blackError :: string where
  "blackError = ''Error: Captured image appears to be black. Camera may need more warm-up time.''"

definition enoentError :: "string \<Rightarrow> string \<Rightarrow> string" where
  "enoentError syscall p =
     ''Error: ENOENT: no such file or directory, '' @ syscall @ '' '' @ [CHR 0x27] @ p @ [CHR 0x27]"

definition isBmp :: "byte list \<Rightarrow> bool" where
  "isBmp buffer = (buffer_at buffer 0 = Some 0x42 \<and> buffer_at buffer 1 = Some 0x4D)"

definition isPpm :: "byte list \<Rightarrow> bool" where
  "isPpm buffer = (buffer_at buffer 0 = Some 0x50 \<and> buffer_at buffer 1 = Some 0x36)"

text \<open>
  The \<open>try\<close> block of the capture callback. \<open>Inl e\<close> is an exception thrown inside it,
  \<open>e\<close> being its rendering in a template literal; \<open>Inr p\<close> is \<open>resolve(p)\<close>.
\<close>

definition processCapture ::
  "platform \<Rightarrow> string \<Rightarrow> attempt \<Rightarrow> string \<Rightarrow> filesystem \<Rightarrow> (string + string) \<times> filesystem" where
  "processCapture pf capturesDir a data fs =
     (let capturedPath = resolveCapturedPath fs data (tempFilepath pf capturesDir a) (uniqueId a) in
      case statSync fs capturedPath of
        None \<Rightarrow> (Inl (notFoundError capturedPath (uniqueId a) (readdirSync pf fs capturesDir)), fs)
      | Some captureStats \<Rightarrow>
          let fileAge = checkNow a - mtimeMs captureStats in
          if fileAge > 5000 then (Inl (staleError fileAge), fs)
          else
            let buffer = content captureStats in
            if isBmp buffer \<or> isPpm buffer
            then (case jimp_convert a buffer of
                    Inl e \<Rightarrow> (Inl e, fs)
                  | Inr jpeg \<Rightarrow>
                      let fs1 = writeFileSync fs (finalFilepath pf capturesDir a)
                                  \<lparr>mtimeMs = writeNow a, content = jpeg\<rparr> in
                      (case unlinkSync fs1 capturedPath of
                         None \<Rightarrow> (Inl (enoentError ''unlink'' capturedPath), fs1)
                       | Some fs2 \<Rightarrow>
                           (case readFileSync fs2 (finalFilepath pf capturesDir a) of
                              None \<Rightarrow> (Inl (enoentError ''open'' (finalFilepath pf capturesDir a)), fs2)
                            | Some finalBuffer \<Rightarrow>
                                if isImageBlack finalBuffer then (Inl blackError, fs2)
                                else (Inr (finalFilepath pf capturesDir a), fs2))))
            else if isImageBlack buffer
            then (case unlinkSync fs capturedPath of
                    None \<Rightarrow> (Inl (enoentError ''unlink'' capturedPath), fs)
                  | Some fs1 \<Rightarrow> (Inl blackError, fs1))
            else (case renameSync fs capturedPath (finalFilepath pf capturesDir a) of
                    None \<Rightarrow> (Inl (enoentError ''rename'' capturedPath), fs)
                  | Some fs1 \<Rightarrow> (Inr (finalFilepath pf capturesDir a), fs1)))"

text \<open>
  \<open>captureImage\<close>: \<open>Inl m\<close> is a rejection with an error of message \<open>m\<close>, \<open>Inr p\<close> the
  resolved path. \<open>captureCallback\<close> is the sweep followed by the capture facility, up to
  its callback.
\<close>

definition afterSweep :: "platform \<Rightarrow> string \<Rightarrow> attempt \<Rightarrow> filesystem \<Rightarrow> filesystem" where
  "afterSweep pf capturesDir a fs = clearOldCaptures pf capturesDir (sweepNow a) fs"

definition captureCallback :: "platform \<Rightarrow> string \<Rightarrow> attempt \<Rightarrow> filesystem \<Rightarrow> capture_result \<times> filesystem" where
  "captureCallback pf capturesDir a fs =
     webcam_capture a (tempFilepath pf capturesDir a) (afterSweep pf capturesDir a fs)"

definition captureImage ::
  "platform \<Rightarrow> string \<Rightarrow> attempt \<Rightarrow> filesystem \<Rightarrow> (string + string) \<times> filesystem" where
  "captureImage pf capturesDir a fs =
     (case captureCallback pf capturesDir a fs of
        (CaptureErr m, fs1) \<Rightarrow> (Inl m, fs1)
      | (CaptureData data, fs1) \<Rightarrow>
          (case processCapture pf capturesDir a data fs1 of
             (Inl e, fs2) \<Rightarrow> (Inl (''Failed to process captured image: '' @ e), fs2)
           | (Inr p, fs2) \<Rightarrow> (Inr p, fs2)))"

text \<open>
  The path the facility reported (the temporary path when it reported none), and the path
  the callback settles on after probing.
\<close>

definition reportedPath :: "platform \<Rightarrow> string \<Rightarrow> attempt \<Rightarrow> string \<Rightarrow> string" where
  "reportedPath pf capturesDir a data = (if data \<noteq> '''' then data else tempFilepath pf capturesDir a)"

definition capturedPath :: "platform \<Rightarrow> string \<Rightarrow> attempt \<Rightarrow> string \<Rightarrow> filesystem \<Rightarrow> string" where
  "capturedPath pf capturesDir a data fs1 =
     resolveCapturedPath fs1 data (tempFilepath pf capturesDir a) (uniqueId a)"

section \<open>The retry loop of \<open>HuelyCLI.captureAndAnalyze\<close>\<close>

text \<open>
  The loop \<open>while (!imagePath && retryCount < maxRetries)\<close> and the check after it. The
  parameter \<open>capture\<close> is \<open>this.webcamManager.captureImage\<close> at the call number
  \<open>retryCount\<close> (every failed call increments \<open>retryCount\<close>, a successful one ends the
  loop: the path it resolves is never empty) on the state \<open>s\<close>. The loop records its calls
  of \<open>captureImage\<close>, its updates of the spinner and its waits.
\<close>

datatype event =
    CaptureCall nat
  | SpinnerSucceed string
  | SpinnerText string
  | Wait int
  | SpinnerFail string

definition maxRetries :: nat where
  "maxRetries = 3"

function captureLoop ::
  "(nat \<Rightarrow> 's \<Rightarrow> (string + string) \<times> 's) \<Rightarrow> nat \<Rightarrow> 's \<Rightarrow> event list
     \<Rightarrow> (string + string) \<times> 's \<times> event list" where
  "captureLoop capture retryCount s tr =
     (if retryCount < maxRetries
      then (case capture retryCount s of
              (Inr imagePath, s') \<Rightarrow>
                (Inr imagePath, s', tr @ [CaptureCall retryCount, SpinnerSucceed ''Image captured!''])
            | (Inl message, s') \<Rightarrow>
                if str_includes message ''black'' \<and> retryCount + 1 < maxRetries
                then captureLoop capture (retryCount + 1) s'
                       (tr @ [CaptureCall retryCount,
                              SpinnerText (''Camera warming up... Retry '' @ show_nat (retryCount + 1) @
                                           ''/'' @ show_nat maxRetries),
                              Wait 2000])
                else (Inl message, s',
                      tr @ [CaptureCall retryCount, SpinnerFail (''Capture failed: '' @ message)]))
      else (Inl ''Failed to capture image after multiple attempts'', s, tr))"
  by pat_completeness auto
termination
  by (relation "measure (\<lambda>(capture, retryCount, s, tr). maxRetries - retryCount)") auto

declare captureLoop.simps [simp del]

text \<open>
  The capture phase of \<open>captureAndAnalyze\<close>: the loop over \<open>captureImage\<close>, whose call
  number \<open>k\<close> has the environment \<open>attempts k\<close>.
\<close>

definition captureWithRetry ::
  "platform \<Rightarrow> string \<Rightarrow> (nat \<Rightarrow> attempt) \<Rightarrow> filesystem
     \<Rightarrow> (string + string) \<times> filesystem \<times> event list" where
  "captureWithRetry pf capturesDir attempts fs =
     captureLoop (\<lambda>k. captureImage pf capturesDir (attempts k)) 0 fs []"

text \<open>What a run of the loop recorded: the number of capture calls and the waits.\<close>

definition attempts_made :: "event list \<Rightarrow> nat" where
  "attempts_made tr = length (filter (\<lambda>e. case e of CaptureCall k \<Rightarrow> True | _ \<Rightarrow> False) tr)"

definition waits :: "event list \<Rightarrow> int list" where
  "waits tr = concat (map (\<lambda>e. case e of Wait ms \<Rightarrow> [ms] | _ \<Rightarrow> []) tr)"

text \<open>
  The state before call \<open>k\<close> and the outcome of call \<open>k\<close>, when all calls before it
  were made.
\<close>

fun state_before :: "(nat \<Rightarrow> 's \<Rightarrow> (string + string) \<times> 's) \<Rightarrow> nat \<Rightarrow> 's \<Rightarrow> 's" where
  "state_before capture 0 s = s"
| "state_before capture (Suc k) s = snd (capture k (state_before capture k s))"

definition outcome :: "(nat \<Rightarrow> 's \<Rightarrow> (string + string) \<times> 's) \<Rightarrow> nat \<Rightarrow> 's \<Rightarrow> string + string" where
  "outcome capture k s = fst (capture k (state_before capture k s))"

section \<open>Concrete scenarios\<close>

text \<open>
  Inputs for the examples below: a capture directory, frames (a black one, a bright one, a
  bitmap), capture facilities (one that writes the frame to the path it is given and
  reports it, one that writes to that path with \<open>.jpg\<close> appended and reports nothing, one
  that writes nothing), and the environment of an attempt started at time \<open>t\<close>.
\<close>

definition capturesDir :: string where
  "capturesDir = ''/tmp/huely-captures''"

definition black_frame :: "byte list" where
  "black_frame = [0xFF, 0xD8] @ replicate 120 0"

definition bright_frame :: "byte list" where
  "bright_frame = [0xFF, 0xD8] @ replicate 120 0x80"

definition bmp_frame :: "byte list" where
  "bmp_frame = [0x42, 0x4D] @ replicate 120 0x80"

definition camera_writes ::
  "byte list \<Rightarrow> int \<Rightarrow> string \<Rightarrow> filesystem \<Rightarrow> capture_result \<times> filesystem" where
  "camera_writes bytes t p fs = (CaptureData p, writeFileSync fs p \<lparr>mtimeMs = t, content = bytes\<rparr>)"

definition camera_writes_sibling ::
  "byte list \<Rightarrow> int \<Rightarrow> string \<Rightarrow> filesystem \<Rightarrow> capture_result \<times> filesystem" where
  "camera_writes_sibling bytes t p fs =
     (CaptureData '''', writeFileSync fs (p @ ''.jpg'') \<lparr>mtimeMs = t, content = bytes\<rparr>)"

definition camera_silent :: "string \<Rightarrow> filesystem \<Rightarrow> capture_result \<times> filesystem" where
  "camera_silent p fs = (CaptureData '''', fs)"

definition scenario :: "(string \<Rightarrow> filesystem \<Rightarrow> capture_result \<times> filesystem) \<Rightarrow> int \<Rightarrow> attempt" where
  "scenario cam t =
     \<lparr>timestamp = t, randomId = ''k3x9qz'', sweepNow = t + 1, webcam_capture = cam,
      checkNow = t + 900, jimp_convert = (\<lambda>b. Inr bright_frame), writeNow = t + 950\<rparr>"

definition temp_path :: string where
  "temp_path = ''/tmp/huely-captures/capture_temp_1700000007000_k3x9qz.jpg''"

definition final_path :: string where
  "final_path = ''/tmp/huely-captures/capture_1700000007000_k3x9qz.jpeg''"

definition stale_attempt :: attempt where
  "stale_attempt = scenario (camera_writes bright_frame 1700000001000) 1700000007000"

definition black_attempt :: attempt where
  "black_attempt = scenario (camera_writes black_frame 1700000007500) 1700000007000"

definition bright_attempt :: attempt where
  "bright_attempt = scenario (camera_writes bright_frame 1700000007500) 1700000007000"

definition bmp_attempt :: attempt where
  "bmp_attempt = scenario (camera_writes bmp_frame 1700000007500) 1700000007000"

definition sibling_attempt :: attempt where
  "sibling_attempt = scenario (camera_writes_sibling bright_frame 1700000007500) 1700000007000"

definition silent_attempt :: attempt where
  "silent_attempt = scenario camera_silent 1700000007000"

definition sweep_fs :: filesystem where
  "sweep_fs =
     [(''/tmp/huely-captures/capture_1_old.jpeg'', \<lparr>mtimeMs = 1000, content = bright_frame\<rparr>),
      (''/tmp/huely-captures/capture_2_new.jpeg'', \<lparr>mtimeMs = 30000, content = bright_frame\<rparr>),
      (''/tmp/huely-captures/notes.txt'', \<lparr>mtimeMs = 1000, content = []\<rparr>),
      (''/tmp/other/capture_3.jpeg'', \<lparr>mtimeMs = 1000, content = []\<rparr>)]"

text \<open>
  Runs of the retry loop: every attempt yields a black frame; the first two attempts yield
  a black frame and the third a bright one; every attempt yields a stale artifact.
\<close>

definition black_attempts :: "nat \<Rightarrow> attempt" where
  "black_attempts k =
     scenario (camera_writes black_frame (1700000007500 + 3000 * int k)) (1700000007000 + 3000 * int k)"

definition recover_attempts :: "nat \<Rightarrow> attempt" where
  "recover_attempts k =
     (if k < 2 then black_attempts k
      else scenario (camera_writes bright_frame 1700000013500) 1700000013000)"

definition stale_attempts :: "nat \<Rightarrow> attempt" where
  "stale_attempts k = stale_attempt"

text \<open>
  A bitmap capture that the image library converts to a black JPEG, and a capture facility
  that fails with an error message mentioning a device called blackmagic0.
\<close>

definition bmp_black_attempt :: attempt where
  "bmp_black_attempt = bmp_attempt\<lparr>jimp_convert := (\<lambda>b. Inr black_frame)\<rparr>"

definition camera_fails :: "string \<Rightarrow> string \<Rightarrow> filesystem \<Rightarrow> capture_result \<times> filesystem" where
  "camera_fails msg p fs = (CaptureErr msg, fs)"

definition device_error_attempts :: "nat \<Rightarrow> attempt" where
  "device_error_attempts k =
     scenario (camera_fails ''Command failed: fswebcam -d /dev/blackmagic0'') (1700000007000 + 3000 * int k)"

text \<open>
  A capture facility that reports nothing and writes the frame to a path of its own
  choosing: on Linux, to the temporary path with its extension replaced by \<open>.jpeg\<close>.
\<close>

definition camera_writes_at ::
  "string \<Rightarrow> byte list \<Rightarrow> int \<Rightarrow> string \<Rightarrow> filesystem \<Rightarrow> capture_result \<times> filesystem" where
  "camera_writes_at path bytes t p fs =
     (CaptureData '''', writeFileSync fs path \<lparr>mtimeMs = t, content = bytes\<rparr>)"

definition jpeg_sibling_attempt :: attempt where
  "jpeg_sibling_attempt =
     scenario (camera_writes_at ''/tmp/huely-captures/capture_temp_1700000007000_k3x9qz.jpeg''
                 bright_frame 1700000007500) 1700000007000"

section \<open>Properties of the frame-quality guard\<close>

lemma black_loop_eq:
  "black_loop buffer i stop (b, r) =
     (b + length (filter (\<lambda>j. lt20 (buffer_at buffer j)) [i..stop - 1]), r @ [i..stop - 1])"
proof (induction buffer i stop "(b, r)" arbitrary: b r rule: black_loop.induct)
  case (1 buffer i stop blackPixels reads)
  show ?case
  proof (cases "i < stop")
    case True
    then have u: "[i..stop - 1] = i # [i + 1..stop - 1]"
      by (simp add: upto_rec1)
    show ?thesis
      using True "1"[OF True] by (subst black_loop.simps) (simp add: u)
  next
    case False
    then show ?thesis by (subst black_loop.simps) simp
  qed
qed

lemma window_reads:
  assumes "0 \<le> i" "i \<le> stop" "stop \<le> int (length buffer)"
  shows "map (buffer_at buffer) [i..stop - 1] = map Some (take (nat (stop - i)) (drop (nat i) buffer))"
proof (rule nth_equalityI)
  show "length (map (buffer_at buffer) [i..stop - 1]) =
        length (map Some (take (nat (stop - i)) (drop (nat i) buffer)))"
    using assms by simp
next
  fix k assume "k < length (map (buffer_at buffer) [i..stop - 1])"
  then have k: "int k < stop - i" by simp
  then have "[i..stop - 1] ! k = i + int k" by simp
  moreover have "buffer_at buffer (i + int k) = Some (buffer ! (nat i + k))"
    using assms k by (simp add: buffer_at_def nat_add_distrib)
  ultimately show "map (buffer_at buffer) [i..stop - 1] ! k =
        map Some (take (nat (stop - i)) (drop (nat i) buffer)) ! k"
    using assms k by simp
qed

lemma count_filter_map:
  "length (filter (\<lambda>j. lt20 (f j)) js) = length (filter lt20 (map f js))"
  by (induction js) auto

lemma black_count_window:
  assumes "100 \<le> length buffer"
  shows "fst (black_loop buffer 100 (100 + min 1000 (int (length buffer) - 100)) (0, [])) =
         dark_count (sample_window buffer)"
proof -
  let ?s = "min 1000 (int (length buffer) - 100)"
  have "map (buffer_at buffer) [100..100 + ?s - 1] =
        map Some (take (nat (100 + ?s - 100)) (drop (nat 100) buffer))"
    using assms by (intro window_reads) auto
  then have m: "map (buffer_at buffer) [100..100 + ?s - 1] = map Some (sample_window buffer)"
    by (simp add: sample_window_def)
  have d: "length (filter lt20 (map Some w)) = dark_count w" for w
    by (induction w) (auto simp: dark_count_def lt20_def)
  have "fst (black_loop buffer 100 (100 + ?s) (0, [])) =
        length (filter (\<lambda>j. lt20 (buffer_at buffer j)) [100..100 + ?s - 1])"
    by (simp only: black_loop_eq fst_conv add_0)
  also have "\<dots> = length (filter lt20 (map (buffer_at buffer) [100..100 + ?s - 1]))"
    by (rule count_filter_map)
  also have "\<dots> = dark_count (sample_window buffer)"
    by (simp only: m d)
  finally show ?thesis .
qed

lemma zero_quotient_not_gt: "\<not> js_gt (js_div 0 k) (9 / 10)"
  by (simp add: js_div_def)

lemma short_buffer_loop:
  assumes "length buffer \<le> 100"
  shows "black_loop buffer 100 (100 + min 1000 (int (length buffer) - 100)) (0, []) = (0, [])"
  using assms by (simp add: black_loop_eq)

lemma short_buffer_not_black:
  assumes "length buffer \<le> 100"
  shows "\<not> isImageBlack buffer"
proof -
  have z: "black_loop buffer 100 (100 + min 1000 (int (length buffer) - 100)) (0, []) = (0, [])"
    using assms by (rule short_buffer_loop)
  have "isImageBlack buffer = js_gt (js_div 0 (min 1000 (int (length buffer) - 100))) (9 / 10)"
    by (simp only: isImageBlack_def Let_def z fst_conv) simp
  then show ?thesis
    by (simp add: zero_quotient_not_gt)
qed

text \<open>
  Claim C3. The guard classifies a buffer as degenerate exactly when the sample window of
  min(1000, length - 100) bytes from offset 100 is not empty and the fraction of its bytes
  below 20 is strictly greater than 9/10.
\<close>

theorem isImageBlack_iff_dark_fraction:
  "isImageBlack buffer \<longleftrightarrow>
     sample_window buffer \<noteq> [] \<and>
     (9 / 10 :: rat) < of_nat (dark_count (sample_window buffer)) / of_nat (length (sample_window buffer))"
proof (cases "100 < length buffer")
  case True
  define s where "s = min 1000 (int (length buffer) - 100)"
  have pos: "0 < s" using True by (simp add: s_def)
  have len: "length (sample_window buffer) = nat s"
    by (simp add: sample_window_def s_def)
  have ne: "sample_window buffer \<noteq> []"
    using len pos by (metis length_0_conv nat_0_iff not_le)
  have cnt: "fst (black_loop buffer 100 (100 + s) (0, [])) = dark_count (sample_window buffer)"
    unfolding s_def using True by (intro black_count_window) simp
  have q: "(of_int s :: rat) = of_nat (length (sample_window buffer))"
    using pos by (simp add: len)
  have "isImageBlack buffer = js_gt (js_div (int (dark_count (sample_window buffer))) s) (9 / 10)"
    by (simp only: isImageBlack_def Let_def s_def[symmetric] cnt)
  also have "\<dots> = ((9 / 10 :: rat) < of_nat (dark_count (sample_window buffer)) / of_int s)"
    using pos by (simp add: js_div_def)
  finally show ?thesis
    using ne by (simp only: q simp_thms)
next
  case False
  then have e: "sample_window buffer = []" by (simp add: sample_window_def)
  have "length buffer \<le> 100" using False by simp
  then have "\<not> isImageBlack buffer"
    by (rule short_buffer_not_black)
  then show ?thesis
    by (simp only: e simp_thms)
qed

theorem isImageBlack_iff_dark_fraction_witness:
  "isImageBlack (replicate 200 0) \<and> \<not> isImageBlack (replicate 100 0 @ replicate 9 0 @ [255])"
proof -
  have w1: "sample_window (replicate 200 0) = replicate 100 0"
    by (simp add: sample_window_def)
  have w2: "sample_window (replicate 100 0 @ replicate 9 0 @ [255]) = replicate 9 0 @ [255]"
    by (simp add: sample_window_def)
  have d1: "dark_count (replicate 100 0) = 100"
    by (simp add: dark_count_def)
  have d2: "dark_count (replicate 9 0 @ [255]) = 9"
    by (simp add: dark_count_def)
  have n1: "replicate 100 (0::byte) \<noteq> []" by simp
  have a: "isImageBlack (replicate 200 0)"
    unfolding isImageBlack_iff_dark_fraction[of "replicate 200 0"] w1 d1 using n1 by simp
  have b: "\<not> isImageBlack (replicate 100 0 @ replicate 9 0 @ [255])"
    unfolding isImageBlack_iff_dark_fraction[of "replicate 100 0 @ replicate 9 0 @ [255]"] w2 d2
    by simp
  show ?thesis using a b by blast
qed

text \<open>
  Claim C10. The guard is a total function; every index its loop reads lies inside the
  buffer (so no read yields \<open>undefined\<close>); and a buffer of at most 100 bytes, whose
  sample size is zero or negative, is never classified as degenerate.
\<close>

theorem isImageBlack_in_bounds:
  "(\<forall>i \<in> set (isImageBlack_reads buffer).
      0 \<le> i \<and> i < int (length buffer) \<and> buffer_at buffer i \<noteq> None) \<and>
   (length buffer \<le> 100 \<longrightarrow> \<not> isImageBlack buffer)"
proof
  show "\<forall>i \<in> set (isImageBlack_reads buffer).
          0 \<le> i \<and> i < int (length buffer) \<and> buffer_at buffer i \<noteq> None"
  proof
    fix i assume "i \<in> set (isImageBlack_reads buffer)"
    then have "i \<in> set [100..100 + min 1000 (int (length buffer) - 100) - 1]"
      by (simp only: isImageBlack_reads_def black_loop_eq snd_conv append_Nil)
    then have "100 \<le> i \<and> i < int (length buffer)"
      by auto
    then show "0 \<le> i \<and> i < int (length buffer) \<and> buffer_at buffer i \<noteq> None"
      by (simp add: buffer_at_def)
  qed
next
  show "length buffer \<le> 100 \<longrightarrow> \<not> isImageBlack buffer"
    by (simp add: short_buffer_not_black)
qed

theorem isImageBlack_in_bounds_witness:
  "101 \<in> set (isImageBlack_reads (replicate 103 0)) \<and>
   (101::int) < int (length (replicate 103 (0::byte))) \<and>
   length (replicate 50 (0::byte)) \<le> 100 \<and> \<not> isImageBlack (replicate 50 0)"
proof -
  have r: "101 \<in> set (isImageBlack_reads (replicate 103 0))"
    by (simp add: isImageBlack_reads_def black_loop_eq)
  have a: "(101::int) < int (length (replicate 103 (0::byte)))"
    using isImageBlack_in_bounds[of "replicate 103 0", THEN conjunct1] r by blast
  have l: "length (replicate 50 (0::byte)) \<le> 100" by simp
  have b: "\<not> isImageBlack (replicate 50 0)"
    using isImageBlack_in_bounds[of "replicate 50 0", THEN conjunct2] l by blast
  show ?thesis using r a l b by blast
qed

section \<open>Properties of the file system and of the sweep\<close>

lemma statSync_delete:
  "statSync (AList.delete q fs) p = (if p = q then None else statSync fs p)"
  by (simp add: statSync_def delete_conv')

lemma statSync_update:
  "statSync (AList.update q f fs) p = (if p = q then Some f else statSync fs p)"
  by (simp add: statSync_def update_conv')

lemma statSync_sweep_file:
  "statSync (sweep_file pf dir now fs n) p =
     (case statSync fs p of
        None \<Rightarrow> None
      | Some st \<Rightarrow>
          if p = path_join pf dir n \<and> startsWith n ''capture_'' \<and> now - mtimeMs st > 30000
          then None else Some st)"
  by (auto simp: sweep_file_def Let_def unlinkSync_def existsSync_def statSync_delete
           split: option.splits)

lemma statSync_foldl_sweep:
  "statSync (foldl (sweep_file pf dir now) fs names) p =
     (case statSync fs p of
        None \<Rightarrow> None
      | Some st \<Rightarrow>
          if (\<exists>n \<in> set names. p = path_join pf dir n \<and> startsWith n ''capture_'') \<and>
             now - mtimeMs st > 30000
          then None else Some st)"
proof (induction names arbitrary: fs)
  case Nil
  then show ?case by (simp split: option.splits)
next
  case (Cons n names)
  show ?case
    by (simp add: Cons.IH statSync_sweep_file split: option.splits) auto
qed

lemma entry_name_path:
  assumes "entry_name pf dir q = Some n"
  shows "q = path_join pf dir n"
proof -
  from assms have p: "prefix (dir @ sep pf) q" and n: "n = drop (length (dir @ sep pf)) q"
    by (auto simp: entry_name_def split: if_splits)
  from p obtain r where "q = (dir @ sep pf) @ r" by (auto simp: prefix_def)
  then show ?thesis using n by (simp add: path_join_def)
qed

lemma in_map_filter_iff:
  "n \<in> set (List.map_filter f xs) \<longleftrightarrow> (\<exists>x \<in> set xs. f x = Some n)"
  by (induction xs) (auto split: option.splits)

lemma readdirSync_iff:
  "n \<in> set (readdirSync pf fs dir) \<longleftrightarrow> (\<exists>q \<in> fst ` set fs. entry_name pf dir q = Some n)"
  by (simp add: readdirSync_def in_map_filter_iff)

lemma listed_iff:
  assumes "statSync fs p = Some st"
  shows "(\<exists>n \<in> set (readdirSync pf fs dir). p = path_join pf dir n \<and> startsWith n ''capture_'') \<longleftrightarrow>
         (case entry_name pf dir p of None \<Rightarrow> False | Some n \<Rightarrow> startsWith n ''capture_'')"
proof
  assume "\<exists>n \<in> set (readdirSync pf fs dir). p = path_join pf dir n \<and> startsWith n ''capture_''"
  then obtain n q where q: "entry_name pf dir q = Some n" and p: "p = path_join pf dir n"
      and s: "startsWith n ''capture_''"
    by (auto simp: readdirSync_iff)
  from q have "q = p" using p entry_name_path by blast
  then show "case entry_name pf dir p of None \<Rightarrow> False | Some n \<Rightarrow> startsWith n ''capture_''"
    using q s by simp
next
  assume h: "case entry_name pf dir p of None \<Rightarrow> False | Some n \<Rightarrow> startsWith n ''capture_''"
  then obtain n where n: "entry_name pf dir p = Some n" and s: "startsWith n ''capture_''"
    by (auto split: option.splits)
  have "p \<in> fst ` set fs"
    using assms by (metis statSync_def map_of_eq_None_iff option.distinct(1))
  then have "n \<in> set (readdirSync pf fs dir)"
    using n by (auto simp: readdirSync_iff)
  then show "\<exists>n \<in> set (readdirSync pf fs dir). p = path_join pf dir n \<and> startsWith n ''capture_''"
    using n s entry_name_path by blast
qed

text \<open>
  Claim C8. After the sweep a path is gone exactly when it held a file directly in the
  capture directory whose name starts with \<open>capture_\<close> and whose modification time is
  more than 30000 ms before the sweep's clock reading; every other file (younger, without
  the prefix, or outside the directory) is there with the same modification time and bytes.
\<close>

theorem clearOldCaptures_exact:
  "statSync (clearOldCaptures pf dir now fs) p =
     (case statSync fs p of
        None \<Rightarrow> None
      | Some st \<Rightarrow>
          (case entry_name pf dir p of
             None \<Rightarrow> Some st
           | Some n \<Rightarrow>
               if startsWith n ''capture_'' \<and> now - mtimeMs st > 30000 then None else Some st))"
proof (cases "statSync fs p")
  case None
  then show ?thesis by (simp add: clearOldCaptures_def statSync_foldl_sweep)
next
  case (Some st)
  show ?thesis
    unfolding clearOldCaptures_def statSync_foldl_sweep Some option.case listed_iff[OF Some]
    by (simp split: option.splits)
qed

theorem clearOldCaptures_exact_witness:
  "statSync (clearOldCaptures Linux capturesDir 40000 sweep_fs)
     ''/tmp/huely-captures/capture_1_old.jpeg'' = None \<and>
   statSync (clearOldCaptures Linux capturesDir 40000 sweep_fs)
     ''/tmp/huely-captures/capture_2_new.jpeg'' = Some \<lparr>mtimeMs = 30000, content = bright_frame\<rparr> \<and>
   statSync (clearOldCaptures Linux capturesDir 40000 sweep_fs)
     ''/tmp/huely-captures/notes.txt'' = Some \<lparr>mtimeMs = 1000, content = []\<rparr> \<and>
   statSync (clearOldCaptures Linux capturesDir 40000 sweep_fs)
     ''/tmp/other/capture_3.jpeg'' = Some \<lparr>mtimeMs = 1000, content = []\<rparr>"
  unfolding clearOldCaptures_exact by code_simp

section \<open>Properties of the device enumeration\<close>

lemma enumerate_Nil_iff: "enumerate n xs = [] \<longleftrightarrow> xs = []"
  by (cases xs) simp_all

text \<open>
  Claim C9. \<open>listDevices\<close> never returns the empty list; and when the enumeration finds
  nothing (off Linux, or on Linux with no device node, the list of the webcam library is
  null or empty) it returns the single default device, named Default Camera with id 0.
\<close>

theorem listDevices_nonempty:
  "listDevices pf video_exists parseInt cameraNames list \<noteq> [] \<and>
   ((pf \<noteq> Linux \<or> probe_video video_exists = []) \<and> (list = None \<or> list = Some []) \<longrightarrow>
      listDevices pf video_exists parseInt cameraNames list =
        [\<lparr>name = ''Default Camera'', id' = ''0''\<rparr>])"
  by (auto simp: listDevices_def simulatedDevices_def enumerate_Nil_iff split: option.splits)

theorem listDevices_nonempty_witness:
  "listDevices Linux (\<lambda>i. False) (\<lambda>d. None) [] (Some []) = [\<lparr>name = ''Default Camera'', id' = ''0''\<rparr>] \<and>
   listDevices Win32 (\<lambda>i. False) (\<lambda>d. None) [] None = [\<lparr>name = ''Default Camera'', id' = ''0''\<rparr>] \<and>
   listDevices Linux (\<lambda>i. i = 2) (\<lambda>d. None) [] None \<noteq> []"
proof -
  have p: "probe_video (\<lambda>i. False) = []"
    by (simp add: probe_video_def)
  have a: "listDevices Linux (\<lambda>i. False) (\<lambda>d. None) [] (Some []) = [\<lparr>name = ''Default Camera'', id' = ''0''\<rparr>]"
    using listDevices_nonempty[of Linux "\<lambda>i. False" "\<lambda>d. None" "[]" "Some []"] p by simp
  have b: "listDevices Win32 (\<lambda>i. False) (\<lambda>d. None) [] None = [\<lparr>name = ''Default Camera'', id' = ''0''\<rparr>]"
    using listDevices_nonempty[of Win32 "\<lambda>i. False" "\<lambda>d. None" "[]" None] by simp
  have c: "listDevices Linux (\<lambda>i. i = 2) (\<lambda>d. None) [] None \<noteq> []"
    using listDevices_nonempty[of Linux "\<lambda>i. i = 2" "\<lambda>d. None" "[]" None] by blast
  show ?thesis using a b c by blast
qed

section \<open>Properties of one capture\<close>

lemma captureImage_err:
  assumes "captureCallback pf dir a fs = (CaptureErr m, fs1)"
  shows "captureImage pf dir a fs = (Inl m, fs1)"
  by (simp add: captureImage_def assms)

lemma captureImage_data:
  assumes "captureCallback pf dir a fs = (CaptureData data, fs1)"
  shows "captureImage pf dir a fs =
           (case processCapture pf dir a data fs1 of
              (Inl e, fs2) \<Rightarrow> (Inl (''Failed to process captured image: '' @ e), fs2)
            | (Inr p, fs2) \<Rightarrow> (Inr p, fs2))"
  by (simp add: captureImage_def assms)

lemma processCapture_missing:
  assumes "statSync fs1 (capturedPath pf dir a data fs1) = None"
  shows "processCapture pf dir a data fs1 =
           (Inl (notFoundError (capturedPath pf dir a data fs1) (uniqueId a) (readdirSync pf fs1 dir)), fs1)"
  using assms by (simp add: processCapture_def capturedPath_def Let_def)

lemma processCapture_stale:
  assumes "statSync fs1 (capturedPath pf dir a data fs1) = Some f"
      and "checkNow a - mtimeMs f > 5000"
  shows "processCapture pf dir a data fs1 = (Inl (staleError (checkNow a - mtimeMs f)), fs1)"
  using assms by (simp add: processCapture_def capturedPath_def Let_def)

lemma processCapture_black:
  assumes "statSync fs1 (capturedPath pf dir a data fs1) = Some f"
      and "checkNow a - mtimeMs f \<le> 5000"
      and "\<not> isBmp (content f)" "\<not> isPpm (content f)" "isImageBlack (content f)"
  shows "processCapture pf dir a data fs1 =
           (Inl blackError, AList.delete (capturedPath pf dir a data fs1) fs1)"
  using assms by (simp add: processCapture_def capturedPath_def Let_def unlinkSync_def existsSync_def)

lemma processCapture_rename:
  assumes "statSync fs1 (capturedPath pf dir a data fs1) = Some f"
      and "checkNow a - mtimeMs f \<le> 5000"
      and "\<not> isBmp (content f)" "\<not> isPpm (content f)" "\<not> isImageBlack (content f)"
  shows "processCapture pf dir a data fs1 =
           (Inr (finalFilepath pf dir a),
            AList.update (finalFilepath pf dir a) f (AList.delete (capturedPath pf dir a data fs1) fs1))"
  using assms by (simp add: processCapture_def capturedPath_def Let_def renameSync_def)

lemma processCapture_convert:
  assumes "statSync fs1 (capturedPath pf dir a data fs1) = Some f"
      and "checkNow a - mtimeMs f \<le> 5000"
      and "isBmp (content f) \<or> isPpm (content f)"
      and "jimp_convert a (content f) = Inr jpeg"
      and "capturedPath pf dir a data fs1 \<noteq> finalFilepath pf dir a"
  shows "processCapture pf dir a data fs1 =
           (if isImageBlack jpeg then Inl blackError else Inr (finalFilepath pf dir a),
            AList.delete (capturedPath pf dir a data fs1)
              (AList.update (finalFilepath pf dir a) \<lparr>mtimeMs = writeNow a, content = jpeg\<rparr> fs1))"
  using assms
  by (simp add: processCapture_def capturedPath_def Let_def unlinkSync_def existsSync_def
        writeFileSync_def readFileSync_def statSync_delete statSync_update)

lemma processCapture_success:
  assumes "processCapture pf dir a data fs1 = (Inr p, fs')"
  shows "p = finalFilepath pf dir a \<and> existsSync fs' (finalFilepath pf dir a) \<and>
         (capturedPath pf dir a data fs1 \<noteq> finalFilepath pf dir a \<longrightarrow>
            \<not> existsSync fs' (capturedPath pf dir a data fs1))"
  using assms
  by (auto simp: processCapture_def capturedPath_def Let_def unlinkSync_def existsSync_def
        writeFileSync_def readFileSync_def renameSync_def statSync_delete statSync_update
        split: option.splits if_splits sum.splits)

lemma probe_extensions_find:
  "probe_extensions fs base uid exts cp =
     (case find (\<lambda>p. existsSync fs p \<and> str_includes p uid) (map (\<lambda>ext. base @ ext) exts) of
        None \<Rightarrow> cp | Some p \<Rightarrow> p)"
  by (induction exts) (auto simp: Let_def)

lemma probe_extensions_none:
  assumes "\<forall>ext \<in> set exts. \<not> existsSync fs (base @ ext)"
  shows "probe_extensions fs base uid exts cp = cp"
  using assms by (induction exts) (auto simp: Let_def)

lemma captureCallback_jimp:
  "captureCallback pf dir (a\<lparr>jimp_convert := j\<rparr>) fs = captureCallback pf dir a fs"
  by (simp add: captureCallback_def tempFilepath_def uniqueId_def afterSweep_def)

lemma capturedPath_jimp:
  "capturedPath pf dir (a\<lparr>jimp_convert := j\<rparr>) data fs1 = capturedPath pf dir a data fs1"
  by (simp add: capturedPath_def tempFilepath_def uniqueId_def)

lemma finalFilepath_jimp:
  "finalFilepath pf dir (a\<lparr>jimp_convert := j\<rparr>) = finalFilepath pf dir a"
  by (simp add: finalFilepath_def uniqueId_def)

text \<open>
  Claim C5. When the callback has data and the resolved file is older than 5000 ms at the
  freshness check, \<open>captureImage\<close> rejects with the stale-artifact error, whatever the
  bytes of the file are, and returns no path.
\<close>

theorem stale_artifact_rejected:
  assumes "captureCallback pf dir a fs = (CaptureData data, fs1)"
      and "statSync fs1 (capturedPath pf dir a data fs1) = Some f"
      and "checkNow a - mtimeMs f > 5000"
  shows "captureImage pf dir a fs =
           (Inl (''Failed to process captured image: '' @ staleError (checkNow a - mtimeMs f)), fs1)"
  by (simp add: captureImage_data[OF assms(1)] processCapture_stale[OF assms(2,3)])

theorem stale_artifact_rejected_witness:
  "captureImage Linux capturesDir stale_attempt [] =
     (Inl (''Failed to process captured image: '' @ staleError 6900),
      [(temp_path, \<lparr>mtimeMs = 1700000001000, content = bright_frame\<rparr>)])"
proof -
  let ?f = "\<lparr>mtimeMs = 1700000001000, content = bright_frame\<rparr>"
  have cb: "captureCallback Linux capturesDir stale_attempt [] = (CaptureData temp_path, [(temp_path, ?f)])"
    by code_simp
  have st: "statSync [(temp_path, ?f)]
              (capturedPath Linux capturesDir stale_attempt temp_path [(temp_path, ?f)]) = Some ?f"
    by code_simp
  have age: "checkNow stale_attempt - mtimeMs ?f = 6900"
    by code_simp
  have old: "checkNow stale_attempt - mtimeMs ?f > 5000"
    by (simp only: age)
  show ?thesis
    using stale_artifact_rejected[OF cb st old] by (simp only: age)
qed

text \<open>
  The probe base: what removing the image extension leaves of the temporary path.
\<close>

lemma ascii_lower_dot:
  assumes "ascii_lower c = CHR ''.''"
  shows "c = CHR ''.''"
proof (cases "65 \<le> (of_char c :: nat) \<and> (of_char c :: nat) \<le> 90")
  case True
  then have "char_of ((of_char c :: nat) + 32) = CHR ''.''"
    using assms by (simp add: ascii_lower_def)
  then have "(of_char (char_of ((of_char c :: nat) + 32)) :: nat) = of_char CHR ''.''"
    by simp
  then have "((of_char c :: nat) + 32) mod 256 = 46"
    by simp
  then show ?thesis using True by simp
next
  case False
  then have "ascii_lower c = c"
    by (auto simp: ascii_lower_def)
  then show ?thesis using assms by simp
qed

lemma ascii_lower_underscore: "ascii_lower CHR ''_'' = CHR ''_''"
  by (simp add: ascii_lower_def)

lemma ascii_lower_jpg: "map ascii_lower ''.jpg'' = ''.jpg''"
  by (simp add: ascii_lower_def)

lemma strip_image_ext_jpg: "strip_image_ext (x @ ''.jpg'') = x"
proof -
  have "suffix ''.jpg'' (map ascii_lower (x @ ''.jpg''))"
    by (simp only: map_append ascii_lower_jpg suffix_appendI suffix_order.refl)
  then show ?thesis
    by (simp add: strip_image_ext_def image_exts_def)
qed

lemma image_ext_no_suffix:
  assumes "e \<in> set image_exts" and "CHR ''.'' \<notin> set r"
  shows "\<not> suffix e (map ascii_lower (q @ ''_'' @ r))"
proof
  assume s: "suffix e (map ascii_lower (q @ ''_'' @ r))"
  have dot: "CHR ''.'' \<in> set e" and und: "CHR ''_'' \<notin> set e"
    using assms(1) by (auto simp: image_exts_def)
  have nd: "CHR ''.'' \<notin> set (map ascii_lower r)"
  proof
    assume "CHR ''.'' \<in> set (map ascii_lower r)"
    then obtain c where c: "c \<in> set r" "ascii_lower c = CHR ''.''"
      by auto
    from c(2) have "c = CHR ''.''" by (rule ascii_lower_dot)
    with c(1) assms(2) show False by simp
  qed
  from s have "suffix e (map ascii_lower q @ (CHR ''_'' # map ascii_lower r))"
    by (simp add: ascii_lower_underscore)
  then consider (a) "suffix e (CHR ''_'' # map ascii_lower r)"
    | (b) xs where "e = xs @ CHR ''_'' # map ascii_lower r"
    by (auto simp: suffix_append)
  then show False
  proof cases
    case a
    then have "e = CHR ''_'' # map ascii_lower r \<or> suffix e (map ascii_lower r)"
      by (simp add: suffix_Cons)
    then show False
      using dot und nd set_mono_suffix by fastforce
  next
    case b
    then show False using und by simp
  qed
qed

lemma strip_image_ext_plain:
  assumes "CHR ''.'' \<notin> set r"
  shows "strip_image_ext (q @ ''_'' @ r) = q @ ''_'' @ r"
proof -
  have "find (\<lambda>e. suffix e (map ascii_lower (q @ ''_'' @ r))) image_exts = None"
    using image_ext_no_suffix[OF _ assms] by (simp add: find_None_iff)
  then show ?thesis by (simp add: strip_image_ext_def)
qed

lemma probe_base:
  "(pf = Linux \<or> CHR ''.'' \<notin> set (randomId a)) \<Longrightarrow>
     strip_image_ext (tempFilepath pf dir a) = path_join pf dir (''capture_temp_'' @ uniqueId a)"
proof (cases "pf = Linux")
  case True
  have "tempFilepath pf dir a = path_join pf dir (''capture_temp_'' @ uniqueId a) @ ''.jpg''"
    using True by (simp add: tempFilepath_def path_join_def)
  then show ?thesis by (simp only: strip_image_ext_jpg)
next
  case False
  assume "pf = Linux \<or> CHR ''.'' \<notin> set (randomId a)"
  then have nd: "CHR ''.'' \<notin> set (randomId a)" using False by simp
  let ?q = "dir @ sep pf @ ''capture_temp_'' @ show_int (timestamp a)"
  have t: "tempFilepath pf dir a = ?q @ ''_'' @ randomId a"
    using False by (simp add: tempFilepath_def path_join_def uniqueId_def)
  have j: "path_join pf dir (''capture_temp_'' @ uniqueId a) = ?q @ ''_'' @ randomId a"
    by (simp add: path_join_def uniqueId_def)
  show ?thesis
    by (simp only: t j strip_image_ext_plain[OF nd])
qed

text \<open>
  Claim C6. When the path the facility reported does not exist, the callback probes the
  extensions .jpg, .jpeg, .bmp, .ppm, .png and the empty one, in this order, appended to the
  expected base name, and settles on the first candidate that exists and contains the
  session identifier (on the reported path when there is none); when no candidate exists,
  \<open>captureImage\<close> rejects with the not-found error. The base name is the temporary path
  without its image extension: on Linux, where the temporary name ends in \<open>.jpg\<close>, and
  on every platform when the random part of the identifier has no dot (it is alphanumeric),
  it is the capture directory joined with \<open>capture_temp_\<close> and the session identifier.
\<close>

theorem probing_resolves_first_candidate:
  assumes "captureCallback pf dir a fs = (CaptureData data, fs1)"
      and "\<not> existsSync fs1 (reportedPath pf dir a data)"
  shows "extensions = [''.jpg'', ''.jpeg'', ''.bmp'', ''.ppm'', ''.png'', ''''] \<and>
         capturedPath pf dir a data fs1 =
           (case find (\<lambda>p. existsSync fs1 p \<and> str_includes p (uniqueId a))
                   (map (\<lambda>ext. strip_image_ext (tempFilepath pf dir a) @ ext) extensions) of
              None \<Rightarrow> reportedPath pf dir a data
            | Some p \<Rightarrow> p) \<and>
         ((\<forall>ext \<in> set extensions. \<not> existsSync fs1 (strip_image_ext (tempFilepath pf dir a) @ ext)) \<longrightarrow>
            captureImage pf dir a fs =
              (Inl (''Failed to process captured image: '' @
                    notFoundError (reportedPath pf dir a data) (uniqueId a) (readdirSync pf fs1 dir)),
               fs1)) \<and>
         ((pf = Linux \<or> CHR ''.'' \<notin> set (randomId a)) \<longrightarrow>
            strip_image_ext (tempFilepath pf dir a) = path_join pf dir (''capture_temp_'' @ uniqueId a) \<and>
            capturedPath pf dir a data fs1 =
              (case find (\<lambda>p. existsSync fs1 p \<and> str_includes p (uniqueId a))
                      (map (\<lambda>ext. path_join pf dir (''capture_temp_'' @ uniqueId a) @ ext) extensions) of
                 None \<Rightarrow> reportedPath pf dir a data
               | Some p \<Rightarrow> p))"
proof -
  have e: "extensions = [''.jpg'', ''.jpeg'', ''.bmp'', ''.ppm'', ''.png'', '''']"
    by (simp add: extensions_def)
  have r: "capturedPath pf dir a data fs1 =
           (case find (\<lambda>p. existsSync fs1 p \<and> str_includes p (uniqueId a))
                   (map (\<lambda>ext. strip_image_ext (tempFilepath pf dir a) @ ext) extensions) of
              None \<Rightarrow> reportedPath pf dir a data
            | Some p \<Rightarrow> p)"
    using assms(2)
    unfolding capturedPath_def resolveCapturedPath_def reportedPath_def Let_def
      probe_extensions_find
    by simp
  have n: "captureImage pf dir a fs =
          (Inl (''Failed to process captured image: '' @
                notFoundError (reportedPath pf dir a data) (uniqueId a) (readdirSync pf fs1 dir)),
           fs1)"
    if none: "\<forall>ext \<in> set extensions. \<not> existsSync fs1 (strip_image_ext (tempFilepath pf dir a) @ ext)"
  proof -
    have cp: "capturedPath pf dir a data fs1 = reportedPath pf dir a data"
      using assms(2) probe_extensions_none[OF none]
      by (simp add: capturedPath_def resolveCapturedPath_def reportedPath_def Let_def)
    have "statSync fs1 (capturedPath pf dir a data fs1) = None"
      using assms(2) by (simp add: cp existsSync_def)
    from processCapture_missing[OF this] show ?thesis
      by (simp add: captureImage_data[OF assms(1)] cp)
  qed
  have b: "strip_image_ext (tempFilepath pf dir a) = path_join pf dir (''capture_temp_'' @ uniqueId a) \<and>
           capturedPath pf dir a data fs1 =
              (case find (\<lambda>p. existsSync fs1 p \<and> str_includes p (uniqueId a))
                      (map (\<lambda>ext. path_join pf dir (''capture_temp_'' @ uniqueId a) @ ext) extensions) of
                 None \<Rightarrow> reportedPath pf dir a data
               | Some p \<Rightarrow> p)"
    if h: "pf = Linux \<or> CHR ''.'' \<notin> set (randomId a)"
  proof -
    have base: "strip_image_ext (tempFilepath pf dir a) = path_join pf dir (''capture_temp_'' @ uniqueId a)"
      using h by (rule probe_base)
    show ?thesis
      using r by (simp only: base simp_thms)
  qed
  show ?thesis
    using e r n b by blast
qed

theorem probing_resolves_first_candidate_witness:
  "capturedPath Darwin capturesDir sibling_attempt ''''
     [(''/tmp/huely-captures/capture_temp_1700000007000_k3x9qz.jpg'',
       \<lparr>mtimeMs = 1700000007500, content = bright_frame\<rparr>)] =
     ''/tmp/huely-captures/capture_temp_1700000007000_k3x9qz.jpg'' \<and>
   fst (captureImage Darwin capturesDir sibling_attempt []) = Inr final_path \<and>
   captureImage Darwin capturesDir silent_attempt [] =
     (Inl (''Failed to process captured image: '' @
           notFoundError ''/tmp/huely-captures/capture_temp_1700000007000_k3x9qz''
             ''1700000007000_k3x9qz'' []), [])  \<and>
   tempFilepath Linux capturesDir jpeg_sibling_attempt =
     ''/tmp/huely-captures/capture_temp_1700000007000_k3x9qz.jpg'' \<and>
   strip_image_ext (tempFilepath Linux capturesDir jpeg_sibling_attempt) =
     ''/tmp/huely-captures/capture_temp_1700000007000_k3x9qz'' \<and>
   capturedPath Linux capturesDir jpeg_sibling_attempt ''''
     [(''/tmp/huely-captures/capture_temp_1700000007000_k3x9qz.jpeg'',
       \<lparr>mtimeMs = 1700000007500, content = bright_frame\<rparr>)] =
     ''/tmp/huely-captures/capture_temp_1700000007000_k3x9qz.jpeg'' \<and>
   fst (captureImage Linux capturesDir jpeg_sibling_attempt []) = Inr final_path"
proof -
  let ?fs1 = "[(''/tmp/huely-captures/capture_temp_1700000007000_k3x9qz.jpg'',
       \<lparr>mtimeMs = 1700000007500, content = bright_frame\<rparr>)]"
  have cb: "captureCallback Darwin capturesDir sibling_attempt [] = (CaptureData '''', ?fs1)"
    by code_simp
  have ne: "\<not> existsSync ?fs1 (reportedPath Darwin capturesDir sibling_attempt '''')"
    by code_simp
  have f: "(case find (\<lambda>p. existsSync ?fs1 p \<and> str_includes p (uniqueId sibling_attempt))
                   (map (\<lambda>ext. strip_image_ext (tempFilepath Darwin capturesDir sibling_attempt) @ ext)
                      extensions) of
              None \<Rightarrow> reportedPath Darwin capturesDir sibling_attempt ''''
            | Some p \<Rightarrow> p) = ''/tmp/huely-captures/capture_temp_1700000007000_k3x9qz.jpg''"
    by code_simp
  have a: "capturedPath Darwin capturesDir sibling_attempt '''' ?fs1 =
             ''/tmp/huely-captures/capture_temp_1700000007000_k3x9qz.jpg''"
    using probing_resolves_first_candidate[OF cb ne] by (simp only: f)
  have cb2: "captureCallback Darwin capturesDir silent_attempt [] = (CaptureData '''', [])"
    by code_simp
  have ne2: "\<not> existsSync [] (reportedPath Darwin capturesDir silent_attempt '''')"
    by code_simp
  have none: "\<forall>ext \<in> set extensions.
                \<not> existsSync [] (strip_image_ext (tempFilepath Darwin capturesDir silent_attempt) @ ext)"
    by (simp add: existsSync_def statSync_def)
  have r: "reportedPath Darwin capturesDir silent_attempt '''' =
             ''/tmp/huely-captures/capture_temp_1700000007000_k3x9qz''"
    by code_simp
  have u: "uniqueId silent_attempt = ''1700000007000_k3x9qz''"
    by code_simp
  have d: "readdirSync Darwin [] capturesDir = []"
    by code_simp
  have b: "captureImage Darwin capturesDir silent_attempt [] =
     (Inl (''Failed to process captured image: '' @
           notFoundError ''/tmp/huely-captures/capture_temp_1700000007000_k3x9qz''
             ''1700000007000_k3x9qz'' []), [])"
    using probing_resolves_first_candidate[OF cb2 ne2] none by (simp only: r u d)
  have c: "fst (captureImage Darwin capturesDir sibling_attempt []) = Inr final_path"
    by code_simp
  let ?fsj = "[(''/tmp/huely-captures/capture_temp_1700000007000_k3x9qz.jpeg'',
       \<lparr>mtimeMs = 1700000007500, content = bright_frame\<rparr>)]"
  have cbj: "captureCallback Linux capturesDir jpeg_sibling_attempt [] = (CaptureData '''', ?fsj)"
    by code_simp
  have nej: "\<not> existsSync ?fsj (reportedPath Linux capturesDir jpeg_sibling_attempt '''')"
    by code_simp
  have lin: "Linux = Linux \<or> CHR ''.'' \<notin> set (randomId jpeg_sibling_attempt)"
    by simp
  have pj: "path_join Linux capturesDir (''capture_temp_'' @ uniqueId jpeg_sibling_attempt) =
              ''/tmp/huely-captures/capture_temp_1700000007000_k3x9qz''"
    by code_simp
  have fj: "(case find (\<lambda>p. existsSync ?fsj p \<and> str_includes p (uniqueId jpeg_sibling_attempt))
                   (map (\<lambda>ext. ''/tmp/huely-captures/capture_temp_1700000007000_k3x9qz'' @ ext)
                      extensions) of
              None \<Rightarrow> reportedPath Linux capturesDir jpeg_sibling_attempt ''''
            | Some p \<Rightarrow> p) = ''/tmp/huely-captures/capture_temp_1700000007000_k3x9qz.jpeg''"
    by code_simp
  have j: "strip_image_ext (tempFilepath Linux capturesDir jpeg_sibling_attempt) =
             ''/tmp/huely-captures/capture_temp_1700000007000_k3x9qz'' \<and>
           capturedPath Linux capturesDir jpeg_sibling_attempt '''' ?fsj =
             ''/tmp/huely-captures/capture_temp_1700000007000_k3x9qz.jpeg''"
    using probing_resolves_first_candidate[OF cbj nej] lin by (simp only: pj fj)
  have tj: "tempFilepath Linux capturesDir jpeg_sibling_attempt =
              ''/tmp/huely-captures/capture_temp_1700000007000_k3x9qz.jpg''"
    by code_simp
  have cj: "fst (captureImage Linux capturesDir jpeg_sibling_attempt []) = Inr final_path"
    by code_simp
  show ?thesis using a b c tj j cj by blast
qed

lemma captureImage_path_nonempty:
  assumes "captureImage pf dir a fs = (Inr p, fs')"
  shows "p \<noteq> ''''"
proof -
  obtain r fs1 where cb: "captureCallback pf dir a fs = (r, fs1)"
    by (cases "captureCallback pf dir a fs")
  show ?thesis
  proof (cases r)
    case (CaptureErr m)
    then show ?thesis using assms cb by (simp add: captureImage_err)
  next
    case (CaptureData data)
    with cb have d: "captureCallback pf dir a fs = (CaptureData data, fs1)" by simp
    from assms have "processCapture pf dir a data fs1 = (Inr p, fs')"
      by (auto simp: captureImage_data[OF d] split: prod.splits sum.splits)
    then have "p = finalFilepath pf dir a"
      using processCapture_success by blast
    then show ?thesis
      by (simp add: finalFilepath_def path_join_def)
  qed
qed

text \<open>
  Claim C7. A fresh capture whose first two bytes are neither the BMP nor the PPM magic,
  and which is not rejected as black, is renamed to the final path: the file there has the
  bytes (and the modification time) of the raw capture, and the image library plays no
  part in the result. A fresh BMP or PPM capture is converted: the file at the final path
  holds the bytes the image library produced.
\<close>

theorem rename_path_preserves_bytes:
  assumes "captureCallback pf dir a fs = (CaptureData data, fs1)"
      and "statSync fs1 (capturedPath pf dir a data fs1) = Some f"
      and "checkNow a - mtimeMs f \<le> 5000"
  shows "(\<not> isBmp (content f) \<and> \<not> isPpm (content f) \<and> \<not> isImageBlack (content f) \<longrightarrow>
            fst (captureImage pf dir a fs) = Inr (finalFilepath pf dir a) \<and>
            statSync (snd (captureImage pf dir a fs)) (finalFilepath pf dir a) = Some f \<and>
            readFileSync (snd (captureImage pf dir a fs)) (finalFilepath pf dir a) = Some (content f) \<and>
            (\<forall>j. captureImage pf dir (a\<lparr>jimp_convert := j\<rparr>) fs = captureImage pf dir a fs)) \<and>
         ((isBmp (content f) \<or> isPpm (content f)) \<and>
          capturedPath pf dir a data fs1 \<noteq> finalFilepath pf dir a \<longrightarrow>
            (\<forall>jpeg. jimp_convert a (content f) = Inr jpeg \<and> \<not> isImageBlack jpeg \<longrightarrow>
               fst (captureImage pf dir a fs) = Inr (finalFilepath pf dir a) \<and>
               readFileSync (snd (captureImage pf dir a fs)) (finalFilepath pf dir a) = Some jpeg))"
proof (intro conjI impI allI)
  assume h: "\<not> isBmp (content f) \<and> \<not> isPpm (content f) \<and> \<not> isImageBlack (content f)"
  have r: "captureImage pf dir a fs =
             (Inr (finalFilepath pf dir a),
              AList.update (finalFilepath pf dir a) f (AList.delete (capturedPath pf dir a data fs1) fs1))"
    using h by (simp add: captureImage_data[OF assms(1)] processCapture_rename[OF assms(2,3)])
  show "fst (captureImage pf dir a fs) = Inr (finalFilepath pf dir a)"
    by (simp add: r)
  show "statSync (snd (captureImage pf dir a fs)) (finalFilepath pf dir a) = Some f"
    by (simp add: r statSync_update)
  show "readFileSync (snd (captureImage pf dir a fs)) (finalFilepath pf dir a) = Some (content f)"
    by (simp add: r readFileSync_def statSync_update)
  fix j
  let ?a = "a\<lparr>jimp_convert := j\<rparr>"
  have cb: "captureCallback pf dir ?a fs = (CaptureData data, fs1)"
    by (simp only: captureCallback_jimp assms(1))
  have st: "statSync fs1 (capturedPath pf dir ?a data fs1) = Some f"
    by (simp only: capturedPath_jimp assms(2))
  have fr: "checkNow ?a - mtimeMs f \<le> 5000"
    using assms(3) by simp
  have "captureImage pf dir ?a fs =
             (Inr (finalFilepath pf dir ?a),
              AList.update (finalFilepath pf dir ?a) f (AList.delete (capturedPath pf dir ?a data fs1) fs1))"
    using h by (simp add: captureImage_data[OF cb] processCapture_rename[OF st fr])
  then show "captureImage pf dir ?a fs = captureImage pf dir a fs"
    by (simp only: r capturedPath_jimp finalFilepath_jimp)
next
  fix jpeg
  assume h: "(isBmp (content f) \<or> isPpm (content f)) \<and>
             capturedPath pf dir a data fs1 \<noteq> finalFilepath pf dir a"
     and j: "jimp_convert a (content f) = Inr jpeg \<and> \<not> isImageBlack jpeg"
  have p: "processCapture pf dir a data fs1 =
           (Inr (finalFilepath pf dir a),
            AList.delete (capturedPath pf dir a data fs1)
              (AList.update (finalFilepath pf dir a) \<lparr>mtimeMs = writeNow a, content = jpeg\<rparr> fs1))"
    using processCapture_convert[OF assms(2,3), of jpeg] h j by simp
  have r: "captureImage pf dir a fs =
           (Inr (finalFilepath pf dir a),
            AList.delete (capturedPath pf dir a data fs1)
              (AList.update (finalFilepath pf dir a) \<lparr>mtimeMs = writeNow a, content = jpeg\<rparr> fs1))"
    by (simp add: captureImage_data[OF assms(1)] p)
  show "fst (captureImage pf dir a fs) = Inr (finalFilepath pf dir a)"
    by (simp add: r)
  show "readFileSync (snd (captureImage pf dir a fs)) (finalFilepath pf dir a) = Some jpeg"
    using h by (auto simp: r readFileSync_def statSync_update statSync_delete)
qed

theorem rename_path_preserves_bytes_witness:
  "fst (captureImage Linux capturesDir bright_attempt []) = Inr final_path \<and>
   readFileSync (snd (captureImage Linux capturesDir bright_attempt [])) final_path = Some bright_frame \<and>
   fst (captureImage Linux capturesDir bmp_attempt []) = Inr final_path \<and>
   readFileSync (snd (captureImage Linux capturesDir bmp_attempt [])) final_path = Some bright_frame"
proof -
  let ?f = "\<lparr>mtimeMs = 1700000007500, content = bright_frame\<rparr>"
  let ?g = "\<lparr>mtimeMs = 1700000007500, content = bmp_frame\<rparr>"
  have fp: "finalFilepath Linux capturesDir bright_attempt = final_path"
    by code_simp
  have fp2: "finalFilepath Linux capturesDir bmp_attempt = final_path"
    by code_simp
  have cb: "captureCallback Linux capturesDir bright_attempt [] = (CaptureData temp_path, [(temp_path, ?f)])"
    by code_simp
  have st: "statSync [(temp_path, ?f)]
              (capturedPath Linux capturesDir bright_attempt temp_path [(temp_path, ?f)]) = Some ?f"
    by code_simp
  have fr: "checkNow bright_attempt - mtimeMs ?f \<le> 5000"
    by code_simp
  have ok: "\<not> isBmp (content ?f) \<and> \<not> isPpm (content ?f) \<and> \<not> isImageBlack (content ?f)"
    by code_simp
  have a: "fst (captureImage Linux capturesDir bright_attempt []) = Inr final_path \<and>
     readFileSync (snd (captureImage Linux capturesDir bright_attempt [])) final_path = Some bright_frame"
    using rename_path_preserves_bytes[OF cb st fr] ok by (simp add: fp)
  have cb2: "captureCallback Linux capturesDir bmp_attempt [] = (CaptureData temp_path, [(temp_path, ?g)])"
    by code_simp
  have st2: "statSync [(temp_path, ?g)]
              (capturedPath Linux capturesDir bmp_attempt temp_path [(temp_path, ?g)]) = Some ?g"
    by code_simp
  have fr2: "checkNow bmp_attempt - mtimeMs ?g \<le> 5000"
    by code_simp
  have bm: "(isBmp (content ?g) \<or> isPpm (content ?g)) \<and>
            capturedPath Linux capturesDir bmp_attempt temp_path [(temp_path, ?g)] \<noteq>
              finalFilepath Linux capturesDir bmp_attempt"
    by code_simp
  have jp: "jimp_convert bmp_attempt (content ?g) = Inr bright_frame \<and> \<not> isImageBlack bright_frame"
    by code_simp
  have b: "fst (captureImage Linux capturesDir bmp_attempt []) = Inr final_path \<and>
     readFileSync (snd (captureImage Linux capturesDir bmp_attempt [])) final_path = Some bright_frame"
    using rename_path_preserves_bytes[OF cb2 st2 fr2] bm jp by (simp only: fp2) blast
  show ?thesis using a b by blast
qed

section \<open>Properties of the retry loop\<close>

lemma captureLoop_third:
  "captureLoop c (Suc (Suc 0)) s tr =
     (case c (Suc (Suc 0)) s of
        (Inr p, s') \<Rightarrow> (Inr p, s', tr @ [CaptureCall (Suc (Suc 0)), SpinnerSucceed ''Image captured!''])
      | (Inl m, s') \<Rightarrow>
          (Inl m, s', tr @ [CaptureCall (Suc (Suc 0)), SpinnerFail (''Capture failed: '' @ m)]))"
  by (subst captureLoop.simps) (simp add: maxRetries_def split: prod.splits sum.splits)

lemma captureLoop_second:
  "captureLoop c (Suc 0) s tr =
     (case c (Suc 0) s of
        (Inr p, s') \<Rightarrow> (Inr p, s', tr @ [CaptureCall (Suc 0), SpinnerSucceed ''Image captured!''])
      | (Inl m, s') \<Rightarrow>
          if str_includes m ''black''
          then captureLoop c (Suc (Suc 0)) s'
                 (tr @ [CaptureCall (Suc 0),
                        SpinnerText (''Camera warming up... Retry '' @ show_nat 2 @ ''/'' @
                                     show_nat maxRetries),
                        Wait 2000])
          else (Inl m, s', tr @ [CaptureCall (Suc 0), SpinnerFail (''Capture failed: '' @ m)]))"
  by (subst captureLoop.simps)
     (simp add: maxRetries_def eval_nat_numeral split: prod.splits sum.splits)

lemma captureLoop_first:
  "captureLoop c 0 s tr =
     (case c 0 s of
        (Inr p, s') \<Rightarrow> (Inr p, s', tr @ [CaptureCall 0, SpinnerSucceed ''Image captured!''])
      | (Inl m, s') \<Rightarrow>
          if str_includes m ''black''
          then captureLoop c (Suc 0) s'
                 (tr @ [CaptureCall 0,
                        SpinnerText (''Camera warming up... Retry '' @ show_nat 1 @ ''/'' @
                                     show_nat maxRetries),
                        Wait 2000])
          else (Inl m, s', tr @ [CaptureCall 0, SpinnerFail (''Capture failed: '' @ m)]))"
  by (subst captureLoop.simps) (simp add: maxRetries_def split: prod.splits sum.splits)

text \<open>The loop without its recursion: at most three calls.\<close>

lemma captureLoop_unrolled:
  assumes "c 0 s = (r0, s1)" "c (Suc 0) s1 = (r1, s2)" "c (Suc (Suc 0)) s2 = (r2, s3)"
  shows "captureLoop c 0 s [] =
     (case r0 of
        Inr p \<Rightarrow> (Inr p, s1, [CaptureCall 0, SpinnerSucceed ''Image captured!''])
      | Inl m0 \<Rightarrow>
          if \<not> str_includes m0 ''black''
          then (Inl m0, s1, [CaptureCall 0, SpinnerFail (''Capture failed: '' @ m0)])
          else
            (case r1 of
               Inr p \<Rightarrow>
                 (Inr p, s2,
                  [CaptureCall 0,
                   SpinnerText (''Camera warming up... Retry '' @ show_nat 1 @ ''/'' @ show_nat maxRetries),
                   Wait 2000, CaptureCall (Suc 0), SpinnerSucceed ''Image captured!''])
             | Inl m1 \<Rightarrow>
                 if \<not> str_includes m1 ''black''
                 then (Inl m1, s2,
                       [CaptureCall 0,
                        SpinnerText (''Camera warming up... Retry '' @ show_nat 1 @ ''/'' @ show_nat maxRetries),
                        Wait 2000, CaptureCall (Suc 0), SpinnerFail (''Capture failed: '' @ m1)])
                 else
                   (case r2 of
                      Inr p \<Rightarrow>
                        (Inr p, s3,
                         [CaptureCall 0,
                          SpinnerText (''Camera warming up... Retry '' @ show_nat 1 @ ''/'' @ show_nat maxRetries),
                          Wait 2000, CaptureCall (Suc 0),
                          SpinnerText (''Camera warming up... Retry '' @ show_nat 2 @ ''/'' @ show_nat maxRetries),
                          Wait 2000, CaptureCall (Suc (Suc 0)), SpinnerSucceed ''Image captured!''])
                    | Inl m2 \<Rightarrow>
                        (Inl m2, s3,
                         [CaptureCall 0,
                          SpinnerText (''Camera warming up... Retry '' @ show_nat 1 @ ''/'' @ show_nat maxRetries),
                          Wait 2000, CaptureCall (Suc 0),
                          SpinnerText (''Camera warming up... Retry '' @ show_nat 2 @ ''/'' @ show_nat maxRetries),
                          Wait 2000, CaptureCall (Suc (Suc 0)),
                          SpinnerFail (''Capture failed: '' @ m2)]))))"
  by (simp add: captureLoop_first captureLoop_second captureLoop_third assms split: sum.splits)

lemma less_two_cases: "k < Suc (Suc 0) \<longleftrightarrow> k = 0 \<or> k = Suc 0"
  by auto

lemma captureLoop_policy:
  "case captureLoop c 0 s [] of
     (res, s', tr) \<Rightarrow>
       1 \<le> attempts_made tr \<and> attempts_made tr \<le> 3 \<and>
       waits tr = replicate (attempts_made tr - 1) 2000 \<and>
       res = outcome c (attempts_made tr - 1) s \<and>
       s' = state_before c (attempts_made tr) s \<and>
       (\<forall>k < attempts_made tr - 1. \<exists>m. outcome c k s = Inl m \<and> str_includes m ''black'') \<and>
       (attempts_made tr < 3 \<longrightarrow> (\<forall>m. res = Inl m \<longrightarrow> \<not> str_includes m ''black''))"
proof -
  obtain r0 s1 where c0: "c 0 s = (r0, s1)" by (cases "c 0 s")
  obtain r1 s2 where c1: "c (Suc 0) s1 = (r1, s2)" by (cases "c (Suc 0) s1")
  obtain r2 s3 where c2: "c (Suc (Suc 0)) s2 = (r2, s3)" by (cases "c (Suc (Suc 0)) s2")
  note defs = attempts_made_def waits_def outcome_def eval_nat_numeral less_two_cases
  show ?thesis
  proof (cases r0)
    case (Inr p)
    then show ?thesis
      by (simp add: captureLoop_unrolled[OF c0 c1 c2] c0 defs)
  next
    case m0: (Inl m0)
    show ?thesis
    proof (cases "str_includes m0 ''black''")
      case False
      then show ?thesis
        by (simp add: captureLoop_unrolled[OF c0 c1 c2] c0 m0 defs)
    next
      case b0: True
      show ?thesis
      proof (cases r1)
        case (Inr p)
        then show ?thesis
          by (simp add: captureLoop_unrolled[OF c0 c1 c2] c0 c1 m0 b0 defs)
      next
        case m1: (Inl m1)
        show ?thesis
        proof (cases "str_includes m1 ''black''")
          case False
          then show ?thesis
            by (simp add: captureLoop_unrolled[OF c0 c1 c2] c0 c1 m0 b0 m1 defs)
        next
          case b1: True
          show ?thesis
            by (cases r2)
               (auto simp: captureLoop_unrolled[OF c0 c1 c2] c0 c1 c2 m0 b0 m1 b1 defs)
        qed
      qed
    qed
  qed
qed

lemma captureLoop_three_black:
  assumes "outcome c 0 s = Inl m0" "str_includes m0 ''black''"
      and "outcome c 1 s = Inl m1" "str_includes m1 ''black''"
      and "outcome c 2 s = Inl m2"
  shows "fst (captureLoop c 0 s []) = Inl m2 \<and>
         attempts_made (snd (snd (captureLoop c 0 s []))) = 3 \<and>
         waits (snd (snd (captureLoop c 0 s []))) = [2000, 2000]"
proof -
  obtain r0 s1 where c0: "c 0 s = (r0, s1)" by (cases "c 0 s")
  obtain r1 s2 where c1: "c (Suc 0) s1 = (r1, s2)" by (cases "c (Suc 0) s1")
  obtain r2 s3 where c2: "c (Suc (Suc 0)) s2 = (r2, s3)" by (cases "c (Suc (Suc 0)) s2")
  show ?thesis
    using assms
    by (simp add: captureLoop_unrolled[OF c0 c1 c2] c0 c1 c2 outcome_def eval_nat_numeral
          attempts_made_def waits_def)
qed

lemma black_message_includes_black:
  "str_includes (''Failed to process captured image: '' @ blackError) ''black''"
  by code_simp

text \<open>
  Claim C2, as amended. A run of the loop makes between one and three calls of
  \<open>captureImage\<close>; it waits 2000 ms between two consecutive calls, the same time every
  time; every call that is followed by another one failed with a message that contains
  \<open>black\<close>, as the message of a degenerate-frame rejection does; the loop ends with the
  outcome of its last call, on the file system that call left; and when it ends before the
  third call with a failure, the message of that failure does not contain \<open>black\<close>.
\<close>

theorem retry_policy:
  "str_includes (''Failed to process captured image: '' @ blackError) ''black'' \<and>
   (case captureWithRetry pf dir attempts fs of
     (res, fs', tr) \<Rightarrow>
       1 \<le> attempts_made tr \<and> attempts_made tr \<le> 3 \<and>
       waits tr = replicate (attempts_made tr - 1) 2000 \<and>
       res = outcome (\<lambda>k. captureImage pf dir (attempts k)) (attempts_made tr - 1) fs \<and>
       fs' = state_before (\<lambda>k. captureImage pf dir (attempts k)) (attempts_made tr) fs \<and>
       (\<forall>k < attempts_made tr - 1.
          \<exists>m. outcome (\<lambda>k. captureImage pf dir (attempts k)) k fs = Inl m \<and> str_includes m ''black'') \<and>
       (attempts_made tr < 3 \<longrightarrow> (\<forall>m. res = Inl m \<longrightarrow> \<not> str_includes m ''black'')))"
  unfolding captureWithRetry_def
  using black_message_includes_black captureLoop_policy[of "\<lambda>k. captureImage pf dir (attempts k)" fs]
  by blast

theorem retry_policy_witness:
  "fst (captureWithRetry Linux capturesDir recover_attempts []) =
     Inr ''/tmp/huely-captures/capture_1700000013000_k3x9qz.jpeg'' \<and>
   attempts_made (snd (snd (captureWithRetry Linux capturesDir recover_attempts []))) = 3 \<and>
   waits (snd (snd (captureWithRetry Linux capturesDir recover_attempts []))) = [2000, 2000] \<and>
   outcome (\<lambda>k. captureImage Linux capturesDir (recover_attempts k)) 1 [] =
     Inl (''Failed to process captured image: '' @ blackError) \<and>
   fst (captureWithRetry Linux capturesDir stale_attempts []) =
     Inl (''Failed to process captured image: '' @ staleError 6900) \<and>
   attempts_made (snd (snd (captureWithRetry Linux capturesDir stale_attempts []))) = 1 \<and>
   \<not> str_includes (''Failed to process captured image: '' @ staleError 6900) ''black''"
proof -
  have r1: "fst (captureWithRetry Linux capturesDir recover_attempts []) =
              Inr ''/tmp/huely-captures/capture_1700000013000_k3x9qz.jpeg''"
    by code_simp
  have n1: "attempts_made (snd (snd (captureWithRetry Linux capturesDir recover_attempts []))) = 3"
    by code_simp
  have o1: "outcome (\<lambda>k. captureImage Linux capturesDir (recover_attempts k)) 1 [] =
              Inl (''Failed to process captured image: '' @ blackError)"
    by code_simp
  have r2: "fst (captureWithRetry Linux capturesDir stale_attempts []) =
              Inl (''Failed to process captured image: '' @ staleError 6900)"
    by code_simp
  have n2: "attempts_made (snd (snd (captureWithRetry Linux capturesDir stale_attempts []))) = 1"
    by code_simp
  have w1: "waits (snd (snd (captureWithRetry Linux capturesDir recover_attempts []))) = [2000, 2000]"
    using retry_policy[of Linux capturesDir recover_attempts "[]"] n1
    by (auto simp: eval_nat_numeral split: prod.splits)
  have b2: "\<not> str_includes (''Failed to process captured image: '' @ staleError 6900) ''black''"
    using retry_policy[of Linux capturesDir stale_attempts "[]"] n2 r2
    by (auto split: prod.splits)
  show ?thesis using r1 n1 w1 o1 r2 n2 b2 by blast
qed

text \<open>
  Claim C2 as stated fails: when all three attempts yield a black frame the loop waits
  2000 ms after the first attempt and 2000 ms after the second; the delay does not increase.
\<close>

theorem settle_delay_not_increasing:
  "waits (snd (snd (captureWithRetry Linux capturesDir black_attempts []))) = [2000, 2000] \<and>
   \<not> sorted_wrt (<) (waits (snd (snd (captureWithRetry Linux capturesDir black_attempts []))))"
proof -
  have "waits (snd (snd (captureWithRetry Linux capturesDir black_attempts []))) = [2000, 2000]"
    by code_simp
  then show ?thesis by simp
qed

text \<open>
  Claim C4, as amended. When each of the three attempts is rejected as a degenerate frame,
  the loop makes exactly three calls and fails with the error of the third call, whose
  message is that of the degenerate-frame rejection; this is not the message
  \<open>capture failed after 3 attempts\<close>.
\<close>

theorem three_black_attempts_fail:
  assumes "\<forall>k < 3. outcome (\<lambda>k. captureImage pf dir (attempts k)) k fs =
                     Inl (''Failed to process captured image: '' @ blackError)"
  shows "fst (captureWithRetry pf dir attempts fs) =
           Inl (''Failed to process captured image: '' @ blackError) \<and>
         attempts_made (snd (snd (captureWithRetry pf dir attempts fs))) = 3 \<and>
         ''Failed to process captured image: '' @ blackError \<noteq> ''capture failed after 3 attempts''"
proof -
  let ?c = "\<lambda>k. captureImage pf dir (attempts k)"
  let ?m = "''Failed to process captured image: '' @ blackError"
  have o: "outcome ?c 0 fs = Inl ?m" "outcome ?c 1 fs = Inl ?m" "outcome ?c 2 fs = Inl ?m"
    using assms by simp_all
  have "fst (captureLoop ?c 0 fs []) = Inl ?m \<and>
        attempts_made (snd (snd (captureLoop ?c 0 fs []))) = 3"
    using captureLoop_three_black[OF o(1) black_message_includes_black o(2)
            black_message_includes_black o(3)]
    by blast
  moreover have "?m \<noteq> ''capture failed after 3 attempts''"
    by (simp add: blackError_def)
  ultimately show ?thesis
    by (simp only: captureWithRetry_def) blast
qed

theorem three_black_attempts_fail_witness:
  "fst (captureWithRetry Linux capturesDir black_attempts []) =
     Inl (''Failed to process captured image: '' @ blackError) \<and>
   attempts_made (snd (snd (captureWithRetry Linux capturesDir black_attempts []))) = 3"
proof -
  let ?c = "\<lambda>k. captureImage Linux capturesDir (black_attempts k)"
  have o0: "outcome ?c 0 [] = Inl (''Failed to process captured image: '' @ blackError)"
    by code_simp
  have o1: "outcome ?c 1 [] = Inl (''Failed to process captured image: '' @ blackError)"
    by code_simp
  have o2: "outcome ?c 2 [] = Inl (''Failed to process captured image: '' @ blackError)"
    by code_simp
  have "\<forall>k < 3. outcome ?c k [] = Inl (''Failed to process captured image: '' @ blackError)"
    using o0 o1 o2 by (auto simp: eval_nat_numeral less_Suc_eq)
  from three_black_attempts_fail[OF this] show ?thesis
    by blast
qed

text \<open>
  Claim C4 as stated fails: after three black frames the error the loop fails with is the
  degenerate-frame error of the third attempt, not \<open>capture failed after 3 attempts\<close>.
\<close>

theorem exhaustion_message_differs:
  "outcome (\<lambda>k. captureImage Linux capturesDir (black_attempts k)) 0 [] =
     Inl (''Failed to process captured image: '' @ blackError) \<and>
   outcome (\<lambda>k. captureImage Linux capturesDir (black_attempts k)) 1 [] =
     Inl (''Failed to process captured image: '' @ blackError) \<and>
   outcome (\<lambda>k. captureImage Linux capturesDir (black_attempts k)) 2 [] =
     Inl (''Failed to process captured image: '' @ blackError) \<and>
   fst (captureWithRetry Linux capturesDir black_attempts []) \<noteq> Inl ''capture failed after 3 attempts''"
  by code_simp

text \<open>
  For the record: the loop tells a degenerate frame from another failure by the substring
  \<open>black\<close> of the message alone, so a capture error whose message mentions a device
  called blackmagic0 is retried like a black frame, up to the third attempt.
\<close>

lemma error_mentioning_black_is_retried:
  "fst (captureWithRetry Linux capturesDir device_error_attempts []) =
     Inl ''Command failed: fswebcam -d /dev/blackmagic0'' \<and>
   attempts_made (snd (snd (captureWithRetry Linux capturesDir device_error_attempts []))) = 3"
  by code_simp

section \<open>Cleanup of rejected artifacts\<close>

text \<open>
  Claim C1, as amended. (a) When a fresh capture that is neither BMP nor PPM is rejected as
  black, \<open>captureImage\<close> deletes the captured file before it returns the error, and keeps
  every other file. (b) When \<open>captureImage\<close> succeeds, the path it returns is the final
  path, a file exists there, and the captured file is gone from any other path. (c) A
  capture error, a missing artifact and a stale artifact delete nothing: the file system is
  what the capture facility left, so a stale artifact stays on disk. (d) The retry loop
  performs no file operation of its own: it ends on the file system its last call of
  \<open>captureImage\<close> left.
\<close>

theorem rejected_black_frame_deleted:
  "(captureCallback pf dir a fs = (CaptureErr m, fs1) \<longrightarrow> captureImage pf dir a fs = (Inl m, fs1)) \<and>
   (captureCallback pf dir a fs = (CaptureData data, fs1) \<longrightarrow>
      (\<forall>f. statSync fs1 (capturedPath pf dir a data fs1) = Some f \<and>
           checkNow a - mtimeMs f \<le> 5000 \<and>
           \<not> isBmp (content f) \<and> \<not> isPpm (content f) \<and> isImageBlack (content f) \<longrightarrow>
             captureImage pf dir a fs =
               (Inl (''Failed to process captured image: '' @ blackError),
                AList.delete (capturedPath pf dir a data fs1) fs1) \<and>
             \<not> existsSync (snd (captureImage pf dir a fs)) (capturedPath pf dir a data fs1) \<and>
             (\<forall>p. p \<noteq> capturedPath pf dir a data fs1 \<longrightarrow>
                  statSync (snd (captureImage pf dir a fs)) p = statSync fs1 p)) \<and>
      (\<forall>p fs'. captureImage pf dir a fs = (Inr p, fs') \<longrightarrow>
             p = finalFilepath pf dir a \<and> existsSync fs' p \<and>
             (capturedPath pf dir a data fs1 \<noteq> finalFilepath pf dir a \<longrightarrow>
                \<not> existsSync fs' (capturedPath pf dir a data fs1))) \<and>
      (statSync fs1 (capturedPath pf dir a data fs1) = None \<longrightarrow>
             snd (captureImage pf dir a fs) = fs1) \<and>
      (\<forall>f. statSync fs1 (capturedPath pf dir a data fs1) = Some f \<and> checkNow a - mtimeMs f > 5000 \<longrightarrow>
             snd (captureImage pf dir a fs) = fs1)) \<and>
   fst (snd (captureWithRetry pf dir attempts fs)) =
     state_before (\<lambda>k. captureImage pf dir (attempts k))
       (attempts_made (snd (snd (captureWithRetry pf dir attempts fs)))) fs"
proof (intro conjI impI allI)
  assume "captureCallback pf dir a fs = (CaptureErr m, fs1)"
  then show "captureImage pf dir a fs = (Inl m, fs1)"
    by (rule captureImage_err)
next
  fix f
  assume cb: "captureCallback pf dir a fs = (CaptureData data, fs1)"
     and h: "statSync fs1 (capturedPath pf dir a data fs1) = Some f \<and>
             checkNow a - mtimeMs f \<le> 5000 \<and>
             \<not> isBmp (content f) \<and> \<not> isPpm (content f) \<and> isImageBlack (content f)"
  have "processCapture pf dir a data fs1 =
          (Inl blackError, AList.delete (capturedPath pf dir a data fs1) fs1)"
    using h processCapture_black[of fs1 pf dir a data f] by blast
  then show r: "captureImage pf dir a fs =
               (Inl (''Failed to process captured image: '' @ blackError),
                AList.delete (capturedPath pf dir a data fs1) fs1)"
    by (simp add: captureImage_data[OF cb])
  show "\<not> existsSync (snd (captureImage pf dir a fs)) (capturedPath pf dir a data fs1)"
    by (simp add: r existsSync_def statSync_delete)
  fix p
  assume "p \<noteq> capturedPath pf dir a data fs1"
  then show "statSync (snd (captureImage pf dir a fs)) p = statSync fs1 p"
    by (simp add: r statSync_delete)
next
  fix p fs'
  assume cb: "captureCallback pf dir a fs = (CaptureData data, fs1)"
     and r: "captureImage pf dir a fs = (Inr p, fs')"
  from r have pc: "processCapture pf dir a data fs1 = (Inr p, fs')"
    by (auto simp: captureImage_data[OF cb] split: prod.splits sum.splits)
  from processCapture_success[OF pc]
  show "p = finalFilepath pf dir a" and "existsSync fs' p"
    by simp_all
  assume "capturedPath pf dir a data fs1 \<noteq> finalFilepath pf dir a"
  with processCapture_success[OF pc]
  show "\<not> existsSync fs' (capturedPath pf dir a data fs1)"
    by simp
next
  assume cb: "captureCallback pf dir a fs = (CaptureData data, fs1)"
     and "statSync fs1 (capturedPath pf dir a data fs1) = None"
  then show "snd (captureImage pf dir a fs) = fs1"
    by (simp add: captureImage_data[OF cb] processCapture_missing)
next
  fix f
  assume cb: "captureCallback pf dir a fs = (CaptureData data, fs1)"
     and "statSync fs1 (capturedPath pf dir a data fs1) = Some f \<and> checkNow a - mtimeMs f > 5000"
  then show "snd (captureImage pf dir a fs) = fs1"
    by (simp add: captureImage_data[OF cb] processCapture_stale)
next
  show "fst (snd (captureWithRetry pf dir attempts fs)) =
          state_before (\<lambda>k. captureImage pf dir (attempts k))
            (attempts_made (snd (snd (captureWithRetry pf dir attempts fs)))) fs"
    unfolding captureWithRetry_def
    using captureLoop_policy[of "\<lambda>k. captureImage pf dir (attempts k)" fs]
    by (auto split: prod.splits)
qed

theorem rejected_black_frame_deleted_witness:
  "captureImage Linux capturesDir black_attempt [] =
     (Inl (''Failed to process captured image: '' @ blackError), []) \<and>
   existsSync [(temp_path, \<lparr>mtimeMs = 1700000007500, content = black_frame\<rparr>)] temp_path \<and>
   \<not> existsSync (snd (captureImage Linux capturesDir black_attempt [])) temp_path \<and>
   captureImage Linux capturesDir bright_attempt [] =
     (Inr final_path, [(final_path, \<lparr>mtimeMs = 1700000007500, content = bright_frame\<rparr>)]) \<and>
   existsSync [(final_path, \<lparr>mtimeMs = 1700000007500, content = bright_frame\<rparr>)] final_path \<and>
   \<not> existsSync [(final_path, \<lparr>mtimeMs = 1700000007500, content = bright_frame\<rparr>)] temp_path"
proof -
  let ?f = "\<lparr>mtimeMs = 1700000007500, content = black_frame\<rparr>"
  let ?g = "\<lparr>mtimeMs = 1700000007500, content = bright_frame\<rparr>"
  have cb: "captureCallback Linux capturesDir black_attempt [] = (CaptureData temp_path, [(temp_path, ?f)])"
    by code_simp
  have cp: "capturedPath Linux capturesDir black_attempt temp_path [(temp_path, ?f)] = temp_path"
    by code_simp
  have h: "statSync [(temp_path, ?f)] temp_path = Some ?f \<and>
           checkNow black_attempt - mtimeMs ?f \<le> 5000 \<and>
           \<not> isBmp (content ?f) \<and> \<not> isPpm (content ?f) \<and> isImageBlack (content ?f)"
    by code_simp
  have d: "AList.delete temp_path [(temp_path, ?f)] = []"
    by simp
  have e: "existsSync [(temp_path, ?f)] temp_path"
    by (simp add: existsSync_def statSync_def)
  from rejected_black_frame_deleted[of Linux capturesDir black_attempt "[]" "''''" "[(temp_path, ?f)]" temp_path]
  have a: "captureImage Linux capturesDir black_attempt [] =
          (Inl (''Failed to process captured image: '' @ blackError), []) \<and>
        \<not> existsSync (snd (captureImage Linux capturesDir black_attempt [])) temp_path"
    using cb h by (simp only: cp d) blast
  have cb2: "captureCallback Linux capturesDir bright_attempt [] = (CaptureData temp_path, [(temp_path, ?g)])"
    by code_simp
  have cp2: "capturedPath Linux capturesDir bright_attempt temp_path [(temp_path, ?g)] = temp_path"
    by code_simp
  have fp: "finalFilepath Linux capturesDir bright_attempt = final_path"
    by code_simp
  have ne: "temp_path \<noteq> final_path"
    by code_simp
  have r: "captureImage Linux capturesDir bright_attempt [] = (Inr final_path, [(final_path, ?g)])"
    by code_simp
  from rejected_black_frame_deleted[of Linux capturesDir bright_attempt "[]" "''''" "[(temp_path, ?g)]" temp_path]
  have b: "existsSync [(final_path, ?g)] final_path \<and> \<not> existsSync [(final_path, ?g)] temp_path"
    using cb2 r ne by (simp only: cp2 fp) blast
  show ?thesis using a e r b by blast
qed

text \<open>
  Claim C1 as stated fails: the facility creates the artifact with a modification time
  6900 ms before the freshness check; \<open>captureImage\<close> rejects it as stale and returns
  its error while the file the attempt created is still on disk.
\<close>

theorem stale_artifact_left_on_disk:
  "\<not> existsSync [] temp_path \<and>
   fst (captureImage Linux capturesDir stale_attempt []) =
     Inl (''Failed to process captured image: '' @ staleError 6900) \<and>
   existsSync (snd (captureImage Linux capturesDir stale_attempt [])) temp_path"
  by code_simp

text \<open>
  For the record: on the conversion path the black-frame rejection happens after the final
  JPEG is written and nothing deletes it, unlike on the rename path. A bitmap converted to
  a black JPEG is rejected with the final file left on disk.
\<close>

lemma converted_black_frame_left_on_disk:
  "fst (captureImage Linux capturesDir bmp_black_attempt []) =
     Inl (''Failed to process captured image: '' @ blackError) \<and>
   \<not> existsSync (snd (captureImage Linux capturesDir bmp_black_attempt [])) temp_path \<and>
   existsSync (snd (captureImage Linux capturesDir bmp_black_attempt [])) final_path"
  by code_simp

end
